theory Spec2Isabelle
  imports Main "HOL-Library.AList"
begin

section \<open>Collaborative whiteboard: the connection manager and the session handler\<close>

text \<open>
  A shallow embedding of \<^verbatim>\<open>server/main.py\<close>: the class \<^verbatim>\<open>ConnectionManager\<close> and the
  coroutine \<^verbatim>\<open>websocket_endpoint\<close>.

  \<^item> What \<^verbatim>\<open>receive_json\<close> returns is any JSON value (with integer numbers); the fields
    of a message, the objects of a board, user ids and names are JSON values, and every
    Python operation the code applies to them (\<^verbatim>\<open>x[k]\<close>, \<^verbatim>\<open>x.get(k)\<close>, \<^verbatim>\<open>k in x\<close>,
    \<^verbatim>\<open>x[k] = v\<close>, hashing) fails on the values on which it fails in Python.
  \<^item> A Python \<^verbatim>\<open>dict\<close> is an association list handled with \<open>map_of\<close>, \<open>AList.update\<close>
    (an assignment \<^verbatim>\<open>d[k] = v\<close>: in place when the key is there, at the end otherwise)
    and \<open>AList.delete\<close>, so that the iteration order of \<^verbatim>\<open>.items()\<close> is the order of
    the list. A dictionary keyed by user ids holds each key in the normal form
    \<open>norm_key\<close>, since Python takes keys that are \<^verbatim>\<open>==\<close> for one key (\<^verbatim>\<open>True\<close> and \<^verbatim>\<open>1\<close>)
    and the code only hashes and compares them. Board ids come from the path and are
    strings.
  \<^item> Every exception of the source is a value of \<open>error\<close>; a function that can
    raise after it has changed the manager returns the manager together with the error.
  \<^item> What the source draws from its environment (\<^verbatim>\<open>uuid4\<close>, \<^verbatim>\<open>random\<close>, the clock, and
    whether \<^verbatim>\<open>send_json\<close> on a socket raises) is the argument \<open>env\<close> of the step.
  \<^item> The coroutines of different connections are not interleaved: one handler step runs
    from the received message to the end of its broadcast.
\<close>

subsection \<open>JSON values and the Python operators used on them\<close>

datatype json =
    JNull
  | JBool bool
  | JNum int
  | JStr string
  | JArr "json list"
  | JObj "(string \<times> json) list"

type_synonym pydict = "(string \<times> json) list"

datatype error =
  KeyError | TypeError | AttributeError | JSONDecodeError | SendFailed | WebSocketDisconnect

text \<open>Truth value testing (\<^verbatim>\<open>if x\<close>, \<^verbatim>\<open>not x\<close>, \<^verbatim>\<open>x or y\<close>).\<close>

fun truthy :: "json \<Rightarrow> bool" where
  "truthy JNull = False"
| "truthy (JBool b) = b"
| "truthy (JNum n) = (n \<noteq> 0)"
| "truthy (JStr s) = (s \<noteq> [])"
| "truthy (JArr xs) = (xs \<noteq> [])"
| "truthy (JObj d) = (d \<noteq> [])"

definition py_or :: "json \<Rightarrow> json \<Rightarrow> json" where
  "py_or a b = (if truthy a then a else b)"

text \<open>\<^verbatim>\<open>d.get(k)\<close> on a dictionary: the value, or \<^verbatim>\<open>None\<close>.\<close>

definition dict_get :: "pydict \<Rightarrow> string \<Rightarrow> json" where
  "dict_get d k = (case map_of d k of None \<Rightarrow> JNull | Some v \<Rightarrow> v)"

definition has_key :: "'k \<Rightarrow> ('k \<times> 'a) list \<Rightarrow> bool" where
  "has_key k d = (map_of d k \<noteq> None)"

text \<open>\<^verbatim>\<open>x.get(k)\<close> on any value: only a dictionary has the method.\<close>

fun py_get :: "json \<Rightarrow> string \<Rightarrow> error + json" where
  "py_get (JObj d) k = Inr (dict_get d k)"
| "py_get _ k = Inl AttributeError"

text \<open>
  The operator \<^verbatim>\<open>==\<close>: \<^verbatim>\<open>True == 1\<close> holds, lists are compared element by element,
  dictionaries key by key whatever their order.
\<close>

fun py_eq :: "json \<Rightarrow> json \<Rightarrow> bool"
  and py_eq_list :: "json list \<Rightarrow> json list \<Rightarrow> bool"
  and py_eq_items :: "(string \<times> json) list \<Rightarrow> (string \<times> json) list \<Rightarrow> bool"
where
  "py_eq JNull JNull = True"
| "py_eq (JBool a) (JBool b) = (a = b)"
| "py_eq (JBool a) (JNum n) = (n = (if a then 1 else 0))"
| "py_eq (JNum n) (JBool a) = (n = (if a then 1 else 0))"
| "py_eq (JNum m) (JNum n) = (m = n)"
| "py_eq (JStr s) (JStr t) = (s = t)"
| "py_eq (JArr xs) (JArr ys) = py_eq_list xs ys"
| "py_eq (JObj a) (JObj b) =
     (set (map fst a) = set (map fst b) \<and> py_eq_items a b)"
| "py_eq _ _ = False"
| "py_eq_list [] [] = True"
| "py_eq_list (x # xs) (y # ys) = (py_eq x y \<and> py_eq_list xs ys)"
| "py_eq_list _ _ = False"
| "py_eq_items [] b = True"
| "py_eq_items ((k, v) # a) b =
     ((case map_of b k of None \<Rightarrow> False | Some w \<Rightarrow> py_eq v w) \<and> py_eq_items a b)"

text \<open>\<^verbatim>\<open>k in s\<close> for two strings: \<open>k\<close> occurs in \<open>s\<close>.\<close>

fun starts_with :: "string \<Rightarrow> string \<Rightarrow> bool" where
  "starts_with [] s = True"
| "starts_with (c # k) [] = False"
| "starts_with (c # k) (d # s) = (c = d \<and> starts_with k s)"

fun is_substring :: "string \<Rightarrow> string \<Rightarrow> bool" where
  "is_substring k [] = (k = [])"
| "is_substring k (c # s) = (starts_with k (c # s) \<or> is_substring k s)"

text \<open>
  \<^verbatim>\<open>k in x\<close> for a string \<open>k\<close>: a key of a dictionary, an element of a list, a part of a
  string; \<^verbatim>\<open>TypeError\<close> on \<^verbatim>\<open>None\<close>, a boolean or a number.
\<close>

fun py_in :: "string \<Rightarrow> json \<Rightarrow> error + bool" where
  "py_in k (JObj d) = Inr (has_key k d)"
| "py_in k (JArr xs) = Inr (list_ex (py_eq (JStr k)) xs)"
| "py_in k (JStr s) = Inr (is_substring k s)"
| "py_in k _ = Inl TypeError"

text \<open>\<^verbatim>\<open>x[k] = v\<close> for a string \<open>k\<close>: only a dictionary takes it.\<close>

fun py_setitem :: "json \<Rightarrow> string \<Rightarrow> json \<Rightarrow> error + json" where
  "py_setitem (JObj d) k v = Inr (JObj (AList.update k v d))"
| "py_setitem _ k v = Inl TypeError"

text \<open>
  A list or a dictionary cannot be hashed: using it as a key, or looking it up in a
  dictionary, raises \<^verbatim>\<open>TypeError\<close>.
\<close>

fun hashable :: "json \<Rightarrow> bool" where
  "hashable (JArr xs) = False"
| "hashable (JObj d) = False"
| "hashable _ = True"

fun norm_key :: "json \<Rightarrow> json" where
  "norm_key (JBool b) = JNum (if b then 1 else 0)"
| "norm_key k = k"

subsection \<open>The state of \<^verbatim>\<open>ConnectionManager\<close>\<close>

type_synonym websocket = nat

text \<open>An entry of \<^verbatim>\<open>user_info[board_id]\<close>.\<close>

record user_data =
  info_id :: json
  info_name :: json
  info_color :: string
  info_session_id :: json
  info_joined_at :: string
  info_cursor :: json

text \<open>An entry of the list \<^verbatim>\<open>board_data[board_id]["users"]\<close>.\<close>

record user_list_entry =
  entry_id :: json
  entry_name :: json
  entry_color :: string
  entry_joined_at :: string

record board =
  objects :: "json list"
  background :: string
  users :: "user_list_entry list"

record manager =
  active_connections :: "(string \<times> (json \<times> websocket) list) list"
  board_data :: "(string \<times> board) list"
  user_info :: "(string \<times> (json \<times> user_data) list) list"

definition init_manager :: manager where
  "init_manager = \<lparr>active_connections = [], board_data = [], user_info = []\<rparr>"

text \<open>
  The environment of one step: the two \<^verbatim>\<open>uuid4()\<close> strings, the two \<^verbatim>\<open>random.choice\<close>
  picks, the clock, the synthetic object id \<^verbatim>\<open>obj_<ms>_<rand>\<close>, and the sockets on which
  \<^verbatim>\<open>send_json\<close> returns during this step (it raises on the others).
\<close>

record env =
  uuid_a :: string
  uuid_b :: string
  adjective_pick :: nat
  noun_pick :: nat
  now :: string
  obj_stamp :: string
  send_ok :: "websocket \<Rightarrow> bool"

text \<open>The messages the server sends, one constructor for each value of \<^verbatim>\<open>"type"\<close>.\<close>

datatype out_msg =
    Init json json string json board "user_list_entry list"
  | UserJoined user_list_entry
  | ObjectAdded json
  | UserUpdated json json json
  | ObjectModified json json
  | ObjectRemoved json
  | ClearBoard json json json
  | CursorMoved json json string json
  | UserLeft json json
  | Pong

type_synonym delivery = "websocket \<times> out_msg"

subsection \<open>\<^verbatim>\<open>ConnectionManager.register_user\<close>\<close>

definition adjectives :: "string list" where
  "adjectives = [''Creative'', ''Artistic'', ''Clever'', ''Bright'', ''Quick'', ''Witty'',
     ''Sharp'', ''Smart'']"

definition nouns :: "string list" where
  "nouns = [''Artist'', ''Designer'', ''Creator'', ''Thinker'', ''Drafter'', ''Sketch'',
     ''Drawer'', ''Planner'']"

definition colors :: "string list" where
  "colors = [''#FF6B6B'', ''#4ECDC4'', ''#FFD166'', ''#06D6A0'', ''#118AB2'',
     ''#EF476F'', ''#7209B7'', ''#3A86FF'', ''#FB5607'', ''#8338EC'']"

text \<open>Lines 34-46: the identity the user asks for, or a new one.\<close>

definition new_identity :: "pydict \<Rightarrow> env \<Rightarrow> json \<times> json \<times> json" where
  "new_identity user_data e =
     (let user_id = dict_get user_data ''userId'';
          user_name = dict_get user_data ''userName'';
          session_id = dict_get user_data ''sessionId''
      in if \<not> truthy user_id
         then (JStr (uuid_a e),
               (if \<not> truthy user_name
                then JStr (adjectives ! (adjective_pick e mod length adjectives) @ '' '' @
                           nouns ! (noun_pick e mod length nouns))
                else user_name),
               JStr (uuid_b e))
         else (user_id, user_name, session_id))"

text \<open>Lines 49-56.\<close>

definition init_board :: "manager \<Rightarrow> string \<Rightarrow> manager" where
  "init_board s board_id =
     (if \<not> has_key board_id (active_connections s)
      then \<lparr>active_connections = AList.update board_id [] (active_connections s),
            board_data = AList.update board_id
              \<lparr>objects = [], background = ''#FFFFFF'', users = []\<rparr> (board_data s),
            user_info = AList.update board_id [] (user_info s)\<rparr>
      else s)"

text \<open>Lines 59-63.\<close>

definition assign_color :: "(json \<times> user_data) list \<Rightarrow> string" where
  "assign_color infos =
     (let used_colors = map (info_color \<circ> snd) infos;
          available_colors = filter (\<lambda>c. c \<notin> set used_colors) colors
      in case available_colors of
           c # _ \<Rightarrow> c
         | [] \<Rightarrow> colors ! (length infos mod length colors))"

text \<open>The dictionary of lines 66-73 and the one of lines 79-84.\<close>

definition new_info :: "json \<Rightarrow> json \<Rightarrow> string \<Rightarrow> json \<Rightarrow> env \<Rightarrow> user_data" where
  "new_info user_id user_name color session_id e =
     \<lparr>info_id = user_id, info_name = user_name, info_color = color,
      info_session_id = session_id, info_joined_at = now e, info_cursor = JNull\<rparr>"

definition new_entry :: "json \<Rightarrow> json \<Rightarrow> string \<Rightarrow> env \<Rightarrow> user_list_entry" where
  "new_entry user_id user_name color e =
     \<lparr>entry_id = user_id, entry_name = user_name, entry_color = color,
      entry_joined_at = now e\<rparr>"

text \<open>
  The assignment of line 66 hashes \<^verbatim>\<open>user_id\<close>: for a list or a dictionary it raises
  \<^verbatim>\<open>TypeError\<close>, after lines 49-56 have created the board.
\<close>

definition register_user ::
  "manager \<Rightarrow> websocket \<Rightarrow> string \<Rightarrow> pydict \<Rightarrow> env \<Rightarrow>
     manager \<times> (error + json \<times> json \<times> string \<times> json)" where
  "register_user s websocket board_id user_data e =
     (case new_identity user_data e of (user_id, user_name, session_id) \<Rightarrow>
      let s1 = init_board s board_id in
      case map_of (user_info s1) board_id of
        None \<Rightarrow> (s1, Inl KeyError)
      | Some infos \<Rightarrow>
          let color = assign_color infos in
          if \<not> hashable user_id then (s1, Inl TypeError)
          else
            let s2 = s1\<lparr>user_info := AList.update board_id
                       (AList.update (norm_key user_id)
                          (new_info user_id user_name color session_id e) infos)
                       (user_info s1)\<rparr>
            in
            case map_of (active_connections s2) board_id of
              None \<Rightarrow> (s2, Inl KeyError)
            | Some conns \<Rightarrow>
                let s3 = s2\<lparr>active_connections := AList.update board_id
                           (AList.update (norm_key user_id) websocket conns)
                           (active_connections s2)\<rparr>;
                    user_list_entry = new_entry user_id user_name color e
                in
                case map_of (board_data s3) board_id of
                  None \<Rightarrow> (s3, Inl KeyError)
                | Some bd \<Rightarrow>
                    (if list_ex (\<lambda>u. py_eq (entry_id u) user_id) (users bd)
                     then (s3, Inr (user_id, user_name, color, session_id))
                     else (s3\<lparr>board_data := AList.update board_id
                                (bd\<lparr>users := users bd @ [user_list_entry]\<rparr>) (board_data s3)\<rparr>,
                           Inr (user_id, user_name, color, session_id))))"

subsection \<open>\<^verbatim>\<open>ConnectionManager.disconnect\<close>\<close>

text \<open>
  The test of line 94 hashes \<^verbatim>\<open>user_id\<close> when the board is there: \<^verbatim>\<open>TypeError\<close> for a
  list or a dictionary, before anything is changed.
\<close>

definition disconnect :: "manager \<Rightarrow> string \<Rightarrow> json \<Rightarrow> manager \<times> (error + json)" where
  "disconnect s board_id user_id =
     (case map_of (active_connections s) board_id of
        None \<Rightarrow> (s, Inr (JStr ''User''))
      | Some conns \<Rightarrow>
          if \<not> hashable user_id then (s, Inl TypeError)
          else
            let key = norm_key user_id;
                conns' = (if has_key key conns then AList.delete key conns else conns);
                s1 = s\<lparr>active_connections := AList.update board_id conns' (active_connections s)\<rparr>
            in
            case map_of (user_info s1) board_id of
              None \<Rightarrow> (s1, Inr (JStr ''User''))
            | Some infos \<Rightarrow>
                (case map_of infos key of
                   None \<Rightarrow> (s1, Inr (JStr ''User''))
                 | Some info \<Rightarrow>
                     let user_name = info_name info;
                         s2 = s1\<lparr>user_info := AList.update board_id
                                (AList.delete key infos) (user_info s1)\<rparr>;
                         s3 = (case map_of (board_data s2) board_id of
                                 None \<Rightarrow> s2
                               | Some bd \<Rightarrow> s2\<lparr>board_data := AList.update board_id
                                   (bd\<lparr>users :=
                                         filter (\<lambda>u. \<not> py_eq (entry_id u) user_id) (users bd)\<rparr>)
                                   (board_data s2)\<rparr>)
                     in
                     if conns' = []
                     then
                       (let s4 = s3\<lparr>active_connections :=
                                     AList.delete board_id (active_connections s3)\<rparr>
                        in if has_key board_id (board_data s4)
                           then
                             (let s5 = s4\<lparr>board_data :=
                                           AList.delete board_id (board_data s4)\<rparr>;
                                  s6 = s5\<lparr>user_info :=
                                           AList.delete board_id (user_info s5)\<rparr>
                              in (s6, Inr user_name))
                           else (s4, Inl KeyError))
                     else (s3, Inr user_name)))"

subsection \<open>\<^verbatim>\<open>ConnectionManager.broadcast\<close> and \<^verbatim>\<open>send_to_user\<close>\<close>

text \<open>
  The first loop of \<^verbatim>\<open>broadcast\<close> (lines 119-126): every connection of the board is tried
  in the order of the dictionary; the argument \<^verbatim>\<open>exclude_user_id\<close> is not read.
  What is returned is the list of the messages that were sent and the list
  \<^verbatim>\<open>disconnected\<close>.
\<close>

fun send_all ::
  "(websocket \<Rightarrow> bool) \<Rightarrow> out_msg \<Rightarrow> (json \<times> websocket) list \<Rightarrow> delivery list \<times> json list"
where
  "send_all ok message [] = ([], [])"
| "send_all ok message ((user_id, connection) # rest) =
     (case send_all ok message rest of (sent, disconnected) \<Rightarrow>
        if ok connection then ((connection, message) # sent, disconnected)
        else (sent, user_id # disconnected))"

text \<open>The second loop (lines 128-129), which is not inside a \<^verbatim>\<open>try\<close>.\<close>

fun disconnect_all :: "manager \<Rightarrow> string \<Rightarrow> json list \<Rightarrow> manager \<times> error option" where
  "disconnect_all s board_id [] = (s, None)"
| "disconnect_all s board_id (user_id # rest) =
     (case disconnect s board_id user_id of
        (s', Inl err) \<Rightarrow> (s', Some err)
      | (s', Inr _) \<Rightarrow> disconnect_all s' board_id rest)"

definition broadcast ::
  "manager \<Rightarrow> string \<Rightarrow> out_msg \<Rightarrow> json \<Rightarrow> (websocket \<Rightarrow> bool) \<Rightarrow>
     manager \<times> delivery list \<times> error option" where
  "broadcast s board_id message exclude_user_id ok =
     (case map_of (active_connections s) board_id of
        None \<Rightarrow> (s, [], None)
      | Some conns \<Rightarrow>
          (case send_all ok message conns of (sent, disconnected) \<Rightarrow>
           case disconnect_all s board_id disconnected of (s', err) \<Rightarrow> (s', sent, err)))"

definition send_to_user :: "websocket \<Rightarrow> out_msg \<Rightarrow> (websocket \<Rightarrow> bool) \<Rightarrow> error + delivery list" where
  "send_to_user websocket message ok =
     (if ok websocket then Inr [(websocket, message)] else Inl SendFailed)"

subsection \<open>\<^verbatim>\<open>ConnectionManager.add_object\<close>\<close>

text \<open>The method is declared for a dictionary (\<^verbatim>\<open>obj_data: dict\<close>); nothing calls it.\<close>

definition add_object :: "manager \<Rightarrow> string \<Rightarrow> pydict \<Rightarrow> env \<Rightarrow> manager" where
  "add_object s board_id obj_data e =
     (case map_of (board_data s) board_id of
        None \<Rightarrow> s
      | Some bd \<Rightarrow>
          let obj = JObj (AList.update ''timestamp'' (JStr (now e))
                      (AList.update ''id'' (JStr (uuid_a e)) obj_data));
              appended = objects bd @ [obj];
              kept = (if length appended > 1000
                      then drop (length appended - 1000) appended else appended)
          in s\<lparr>board_data := AList.update board_id (bd\<lparr>objects := kept\<rparr>) (board_data s)\<rparr>)"

subsection \<open>The handlers of \<^verbatim>\<open>websocket_endpoint\<close>\<close>

text \<open>
  What one step of the message loop leaves: the manager, the messages that were sent, the
  local variable \<^verbatim>\<open>user_id\<close>, and the exception that leaves the loop, if any.
\<close>

record outcome =
  state :: manager
  sent :: "delivery list"
  bound_user_id :: json
  raised :: "error option"

definition raise :: "manager \<Rightarrow> json \<Rightarrow> error \<Rightarrow> outcome" where
  "raise s user_id err = \<lparr>state = s, sent = [], bound_user_id = user_id, raised = Some err\<rparr>"

definition after_broadcast ::
  "json \<Rightarrow> manager \<times> delivery list \<times> error option \<Rightarrow> outcome" where
  "after_broadcast user_id r =
     (case r of (s, out, err) \<Rightarrow>
        \<lparr>state = s, sent = out, bound_user_id = user_id, raised = err\<rparr>)"

definition set_objects :: "manager \<Rightarrow> string \<Rightarrow> (json list \<Rightarrow> json list) \<Rightarrow> manager" where
  "set_objects s board_id f =
     (case map_of (board_data s) board_id of
        None \<Rightarrow> s
      | Some bd \<Rightarrow>
          s\<lparr>board_data := AList.update board_id (bd\<lparr>objects := f (objects bd)\<rparr>) (board_data s)\<rparr>)"

text \<open>A pass over the objects of the board that can raise: nothing is stored then.\<close>

definition scan_objects ::
  "manager \<Rightarrow> string \<Rightarrow> (json list \<Rightarrow> error + json list) \<Rightarrow> error + manager" where
  "scan_objects s board_id f =
     (case map_of (board_data s) board_id of
        None \<Rightarrow> Inr s
      | Some bd \<Rightarrow>
          (case f (objects bd) of
             Inl err \<Rightarrow> Inl err
           | Inr objs \<Rightarrow> Inr (set_objects s board_id (\<lambda>_. objs))))"

text \<open>Lines 203-206, for the dictionary \<^verbatim>\<open>obj_data\<close>.\<close>

definition stamp_object :: "pydict \<Rightarrow> env \<Rightarrow> pydict" where
  "stamp_object obj_data e =
     AList.update ''timestamp'' (JStr (now e))
       (if \<not> truthy (dict_get obj_data ''id'')
        then AList.update ''id'' (JStr (obj_stamp e)) obj_data else obj_data)"

text \<open>
  Lines 199-216. \<^verbatim>\<open>data["object"]\<close> raises \<^verbatim>\<open>KeyError\<close> when the key is missing, and
  \<^verbatim>\<open>obj_data.get\<close> raises \<^verbatim>\<open>AttributeError\<close> when the object is not a dictionary.
\<close>

definition on_add_object :: "manager \<Rightarrow> string \<Rightarrow> json \<Rightarrow> pydict \<Rightarrow> env \<Rightarrow> outcome" where
  "on_add_object s board_id user_id data e =
     (case map_of data ''object'' of
        None \<Rightarrow> raise s user_id KeyError
      | Some (JObj obj0) \<Rightarrow>
          let obj_data = JObj (stamp_object obj0 e);
              s1 = set_objects s board_id (\<lambda>objs. objs @ [obj_data])
          in after_broadcast user_id
               (broadcast s1 board_id (ObjectAdded obj_data) JNull (send_ok e))
      | Some _ \<Rightarrow> raise s user_id AttributeError)"

text \<open>
  Lines 224-226 and 314-316: the test hashes \<^verbatim>\<open>user_id\<close> when the board has user records.
\<close>

definition set_name :: "manager \<Rightarrow> string \<Rightarrow> json \<Rightarrow> json \<Rightarrow> error + manager" where
  "set_name s board_id user_id new_name =
     (case map_of (user_info s) board_id of
        None \<Rightarrow> Inr s
      | Some infos \<Rightarrow>
          if \<not> hashable user_id then Inl TypeError
          else
            (case map_of infos (norm_key user_id) of
               None \<Rightarrow> Inr s
             | Some info \<Rightarrow>
                 Inr (s\<lparr>user_info := AList.update board_id
                        (AList.update (norm_key user_id) (info\<lparr>info_name := new_name\<rparr>) infos)
                        (user_info s)\<rparr>)))"

text \<open>The loop of lines 230-233 and 320-323: the first entry with the id gets the name.\<close>

fun rename_first :: "json \<Rightarrow> json \<Rightarrow> user_list_entry list \<Rightarrow> user_list_entry list" where
  "rename_first user_id new_name [] = []"
| "rename_first user_id new_name (user # rest) =
     (if py_eq (entry_id user) user_id then user\<lparr>entry_name := new_name\<rparr> # rest
      else user # rename_first user_id new_name rest)"

definition rename_roster :: "manager \<Rightarrow> string \<Rightarrow> json \<Rightarrow> json \<Rightarrow> manager" where
  "rename_roster s board_id user_id new_name =
     (case map_of (board_data s) board_id of
        None \<Rightarrow> s
      | Some bd \<Rightarrow>
          s\<lparr>board_data := AList.update board_id
               (bd\<lparr>users := rename_first user_id new_name (users bd)\<rparr>) (board_data s)\<rparr>)"

definition rename_user :: "manager \<Rightarrow> string \<Rightarrow> json \<Rightarrow> json \<Rightarrow> error + manager" where
  "rename_user s board_id user_id new_name =
     (case set_name s board_id user_id new_name of
        Inl err \<Rightarrow> Inl err
      | Inr s1 \<Rightarrow> Inr (rename_roster s1 board_id user_id new_name))"

text \<open>
  Lines 218-241: the local \<^verbatim>\<open>user_id\<close> is assigned from the message at line 221, before
  anything can raise.
\<close>

definition on_update_user :: "manager \<Rightarrow> string \<Rightarrow> pydict \<Rightarrow> env \<Rightarrow> outcome" where
  "on_update_user s board_id data e =
     (let old_name = dict_get data ''oldName'';
          new_name = dict_get data ''newName'';
          user_id = dict_get data ''userId''
      in case rename_user s board_id user_id new_name of
           Inl err \<Rightarrow> raise s user_id err
         | Inr s1 \<Rightarrow>
             after_broadcast user_id
               (broadcast s1 board_id (UserUpdated user_id old_name new_name) user_id
                  (send_ok e)))"

text \<open>Lines 309-330, the second branch for the same type: \<^verbatim>\<open>user_id\<close> is not assigned.\<close>

definition on_update_user_second ::
  "manager \<Rightarrow> string \<Rightarrow> json \<Rightarrow> pydict \<Rightarrow> env \<Rightarrow> outcome" where
  "on_update_user_second s board_id user_id data e =
     (let old_name = dict_get data ''oldName'';
          new_name = dict_get data ''newName''
      in case rename_user s board_id user_id new_name of
           Inl err \<Rightarrow> raise s user_id err
         | Inr s1 \<Rightarrow>
             after_broadcast user_id
               (broadcast s1 board_id (UserUpdated user_id old_name new_name) user_id
                  (send_ok e)))"

text \<open>Line 245: the second operand of \<^verbatim>\<open>or\<close> is evaluated when the first is not true.\<close>

definition resolve_object_id :: "pydict \<Rightarrow> json \<Rightarrow> error + json" where
  "resolve_object_id data obj_data =
     (if truthy (dict_get data ''object_id'') then Inr (dict_get data ''object_id'')
      else py_get obj_data ''id'')"

text \<open>
  The loop of lines 251-258: the first object with the id is replaced. \<^verbatim>\<open>obj.get\<close>
  raises \<^verbatim>\<open>AttributeError\<close> on an object of the list that is not a dictionary, when the
  scan reaches it.
\<close>

fun replace_first :: "json \<Rightarrow> json \<Rightarrow> json list \<Rightarrow> error + json list" where
  "replace_first object_id obj_data [] = Inr []"
| "replace_first object_id obj_data (JObj obj # rest) =
     (if py_eq (dict_get obj ''id'') object_id then Inr (obj_data # rest)
      else (case replace_first object_id obj_data rest of
              Inl err \<Rightarrow> Inl err
            | Inr objs \<Rightarrow> Inr (JObj obj # objs)))"
| "replace_first object_id obj_data (_ # rest) = Inl AttributeError"

text \<open>Lines 261-262.\<close>

definition complete_object :: "json \<Rightarrow> json \<Rightarrow> error + json" where
  "complete_object object_id obj_data =
     (case py_in ''id'' obj_data of
        Inl err \<Rightarrow> Inl err
      | Inr present \<Rightarrow>
          if \<not> present \<and> truthy object_id then py_setitem obj_data ''id'' object_id
          else Inr obj_data)"

text \<open>
  Lines 243-269. The value put into the list at line 254 is \<^verbatim>\<open>obj_data\<close> itself, so the
  assignment of line 262, when it succeeds, is seen in the list as well: the list holds
  the object as lines 261-262 leave it (\<open>stored\<close>). The scan compares the ids of the
  objects of the list, which line 262 does not touch. When lines 261-262 raise, the list
  has been changed already.
\<close>

definition on_modify_object :: "manager \<Rightarrow> string \<Rightarrow> json \<Rightarrow> pydict \<Rightarrow> env \<Rightarrow> outcome" where
  "on_modify_object s board_id user_id data e =
     (case map_of data ''object'' of
        None \<Rightarrow> raise s user_id KeyError
      | Some obj_data \<Rightarrow>
          (case resolve_object_id data obj_data of
             Inl err \<Rightarrow> raise s user_id err
           | Inr object_id \<Rightarrow>
               let stored = (case complete_object object_id obj_data of
                               Inl err \<Rightarrow> obj_data | Inr completed \<Rightarrow> completed)
               in
               (case scan_objects s board_id (replace_first object_id stored) of
                  Inl err \<Rightarrow> raise s user_id err
                | Inr s1 \<Rightarrow>
                    (case complete_object object_id obj_data of
                       Inl err \<Rightarrow> raise s1 user_id err
                     | Inr completed \<Rightarrow>
                         after_broadcast user_id
                           (broadcast s1 board_id (ObjectModified completed object_id)
                              JNull (send_ok e))))))"

text \<open>
  Line 272: \<^verbatim>\<open>data.get("object", {}).get("id")\<close> is evaluated when \<^verbatim>\<open>object_id\<close> is not
  true; it raises \<^verbatim>\<open>AttributeError\<close> when the object is there and is not a dictionary.
\<close>

definition resolve_removed_id :: "pydict \<Rightarrow> error + json" where
  "resolve_removed_id data =
     (if truthy (dict_get data ''object_id'') then Inr (dict_get data ''object_id'')
      else (case map_of data ''object'' of
              None \<Rightarrow> Inr JNull
            | Some obj \<Rightarrow> py_get obj ''id''))"

text \<open>The list comprehension of lines 274-277 calls \<^verbatim>\<open>obj.get\<close> on every object.\<close>

fun remove_matching :: "json \<Rightarrow> json list \<Rightarrow> error + json list" where
  "remove_matching obj_id [] = Inr []"
| "remove_matching obj_id (JObj obj # rest) =
     (case remove_matching obj_id rest of
        Inl err \<Rightarrow> Inl err
      | Inr objs \<Rightarrow>
          Inr (if \<not> py_eq (dict_get obj ''id'') obj_id then JObj obj # objs else objs))"
| "remove_matching obj_id (_ # rest) = Inl AttributeError"

text \<open>Lines 271-282.\<close>

definition on_remove_object :: "manager \<Rightarrow> string \<Rightarrow> json \<Rightarrow> pydict \<Rightarrow> env \<Rightarrow> outcome" where
  "on_remove_object s board_id user_id data e =
     (case resolve_removed_id data of
        Inl err \<Rightarrow> raise s user_id err
      | Inr obj_id \<Rightarrow>
          (case (if truthy obj_id then scan_objects s board_id (remove_matching obj_id)
                 else Inr s) of
             Inl err \<Rightarrow> raise s user_id err
           | Inr s1 \<Rightarrow>
               after_broadcast user_id
                 (broadcast s1 board_id (ObjectRemoved obj_id) JNull (send_ok e))))"

text \<open>Lines 284-293; the local \<^verbatim>\<open>boardId\<close> is always \<^verbatim>\<open>None\<close>.\<close>

definition on_clear_board ::
  "manager \<Rightarrow> string \<Rightarrow> json \<Rightarrow> json \<Rightarrow> pydict \<Rightarrow> env \<Rightarrow> outcome" where
  "on_clear_board s board_id user_id user_name data e =
     (let s1 = set_objects s board_id (\<lambda>objs. [])
      in after_broadcast user_id
           (broadcast s1 board_id
              (ClearBoard
                 (case map_of data ''user_id'' of None \<Rightarrow> user_id | Some v \<Rightarrow> v)
                 (case map_of data ''user_name'' of None \<Rightarrow> user_name | Some v \<Rightarrow> v)
                 (case map_of data ''boardId'' of None \<Rightarrow> JNull | Some v \<Rightarrow> v))
              JNull (send_ok e)))"

text \<open>
  Lines 296-297: the test hashes \<^verbatim>\<open>user_id\<close> when the board has user records, and
  \<^verbatim>\<open>data["position"]\<close> is read when the user is registered, before the assignment.
\<close>

definition set_cursor :: "manager \<Rightarrow> string \<Rightarrow> json \<Rightarrow> pydict \<Rightarrow> error + manager" where
  "set_cursor s board_id user_id data =
     (case map_of (user_info s) board_id of
        None \<Rightarrow> Inr s
      | Some infos \<Rightarrow>
          if \<not> hashable user_id then Inl TypeError
          else
            (case map_of infos (norm_key user_id) of
               None \<Rightarrow> Inr s
             | Some info \<Rightarrow>
                 (case map_of data ''position'' of
                    None \<Rightarrow> Inl KeyError
                  | Some position \<Rightarrow>
                      Inr (s\<lparr>user_info := AList.update board_id
                             (AList.update (norm_key user_id)
                                (info\<lparr>info_cursor := position\<rparr>) infos)
                             (user_info s)\<rparr>))))"

text \<open>
  \<^verbatim>\<open>manager.user_info.get(board_id, {}).get(user_id, {})\<close> for a \<^verbatim>\<open>user_id\<close> that can be
  hashed, \<open>None\<close> for the empty dictionary.
\<close>

definition lookup_info :: "manager \<Rightarrow> string \<Rightarrow> json \<Rightarrow> user_data option" where
  "lookup_info s board_id user_id =
     (case map_of (user_info s) board_id of
        None \<Rightarrow> None
      | Some infos \<Rightarrow> map_of infos (norm_key user_id))"

text \<open>
  Lines 295-307. Line 299 hashes \<^verbatim>\<open>user_id\<close> whatever the board; \<^verbatim>\<open>data["position"]\<close>
  is read again at line 306, before the broadcast.
\<close>

definition on_cursor_move :: "manager \<Rightarrow> string \<Rightarrow> json \<Rightarrow> pydict \<Rightarrow> env \<Rightarrow> outcome" where
  "on_cursor_move s board_id user_id data e =
     (case set_cursor s board_id user_id data of
        Inl err \<Rightarrow> raise s user_id err
      | Inr s1 \<Rightarrow>
          if \<not> hashable user_id then raise s1 user_id TypeError
          else
            let user_info_entry = lookup_info s1 board_id user_id in
            (case map_of data ''position'' of
               None \<Rightarrow> raise s1 user_id KeyError
             | Some position \<Rightarrow>
                 after_broadcast user_id
                   (broadcast s1 board_id
                      (CursorMoved user_id
                         (case user_info_entry of
                            None \<Rightarrow> JStr ''User'' | Some i \<Rightarrow> info_name i)
                         (case user_info_entry of
                            None \<Rightarrow> ''#999999'' | Some i \<Rightarrow> info_color i)
                         position)
                      user_id (send_ok e))))"

text \<open>Lines 332-333.\<close>

definition on_ping :: "manager \<Rightarrow> websocket \<Rightarrow> json \<Rightarrow> env \<Rightarrow> outcome" where
  "on_ping s websocket user_id e =
     (case send_to_user websocket Pong (send_ok e) of
        Inl err \<Rightarrow> raise s user_id err
      | Inr out \<Rightarrow> \<lparr>state = s, sent = out, bound_user_id = user_id, raised = None\<rparr>)"

text \<open>
  The chain of \<^verbatim>\<open>if\<close>/\<^verbatim>\<open>elif\<close> on \<^verbatim>\<open>data["type"]\<close>, lines 199-333, in its order, for the
  dictionary \<^verbatim>\<open>data\<close>; a value is \<^verbatim>\<open>==\<close> to a string only when it is that string.
\<close>

definition dispatch ::
  "manager \<Rightarrow> websocket \<Rightarrow> string \<Rightarrow> json \<Rightarrow> json \<Rightarrow> pydict \<Rightarrow> env \<Rightarrow> outcome"
where
  "dispatch s websocket board_id user_id user_name data e =
     (case map_of data ''type'' of
        None \<Rightarrow> raise s user_id KeyError
      | Some t \<Rightarrow>
          if t = JStr ''add_object'' then on_add_object s board_id user_id data e
          else if t = JStr ''update_user'' then on_update_user s board_id data e
          else if t = JStr ''modify_object'' then on_modify_object s board_id user_id data e
          else if t = JStr ''remove_object'' then on_remove_object s board_id user_id data e
          else if t = JStr ''clear_board'' then on_clear_board s board_id user_id user_name data e
          else if t = JStr ''cursor_move'' then on_cursor_move s board_id user_id data e
          else if t = JStr ''update_user'' then on_update_user_second s board_id user_id data e
          else if t = JStr ''ping'' then on_ping s websocket user_id e
          else \<lparr>state = s, sent = [], bound_user_id = user_id, raised = None\<rparr>)"

text \<open>
  One received message: \<^verbatim>\<open>data["type"]\<close> raises \<^verbatim>\<open>TypeError\<close> on a value that is not a
  dictionary.
\<close>

definition handle_event ::
  "manager \<Rightarrow> websocket \<Rightarrow> string \<Rightarrow> json \<Rightarrow> json \<Rightarrow> json \<Rightarrow> env \<Rightarrow> outcome"
where
  "handle_event s websocket board_id user_id user_name data e =
     (case data of
        JObj d \<Rightarrow> dispatch s websocket board_id user_id user_name d e
      | _ \<Rightarrow> raise s user_id TypeError)"

subsection \<open>The message loop, the teardown and the whole of \<^verbatim>\<open>websocket_endpoint\<close>\<close>

text \<open>
  What \<^verbatim>\<open>receive_json\<close> returns, with the environment of the step it starts: a JSON
  value, or a text that is not JSON. When the list is used up the client has gone and
  \<^verbatim>\<open>receive_json\<close> raises \<^verbatim>\<open>WebSocketDisconnect\<close>.
\<close>

datatype received = Json json | NotJson

fun active_loop ::
  "manager \<Rightarrow> websocket \<Rightarrow> string \<Rightarrow> json \<Rightarrow> json \<Rightarrow> (received \<times> env) list \<Rightarrow> outcome"
where
  "active_loop s websocket board_id user_id user_name [] =
     raise s user_id WebSocketDisconnect"
| "active_loop s websocket board_id user_id user_name ((NotJson, e) # rest) =
     raise s user_id JSONDecodeError"
| "active_loop s websocket board_id user_id user_name ((Json data, e) # rest) =
     (let r = handle_event s websocket board_id user_id user_name data e
      in case raised r of
           Some err \<Rightarrow> r
         | None \<Rightarrow>
             (let r' = active_loop (state r) websocket board_id (bound_user_id r) user_name rest
              in r'\<lparr>sent := sent r @ sent r'\<rparr>))"

text \<open>The \<^verbatim>\<open>finally\<close> block, lines 338-345.\<close>

definition teardown ::
  "manager \<Rightarrow> string \<Rightarrow> json \<Rightarrow> json \<Rightarrow> env \<Rightarrow> manager \<times> delivery list \<times> error option" where
  "teardown s board_id user_id user_name e =
     (if \<not> truthy user_id then (s, [], None)
      else
        (case disconnect s board_id user_id of
           (s1, Inl err) \<Rightarrow> (s1, [], Some err)
         | (s1, Inr disconnected_name) \<Rightarrow>
             broadcast s1 board_id (UserLeft user_id (py_or disconnected_name user_name))
               JNull (send_ok e)))"

text \<open>
  The result of a connection: the manager it leaves, everything that was sent, and the
  exception that reached the outer \<^verbatim>\<open>except\<close> (which calls \<^verbatim>\<open>websocket.close()\<close>), \<open>None\<close>
  when the coroutine returns without one.
\<close>

record session_end =
  final :: manager
  delivered :: "delivery list"
  closed_on :: "error option"

definition default_board :: board where
  "default_board = \<lparr>objects = [], background = ''#FFFFFF'', users = []\<rparr>"

text \<open>
  Lines 194-345, from the message loop on: the \<^verbatim>\<open>try\<close> with its \<^verbatim>\<open>except\<close> for
  \<^verbatim>\<open>WebSocketDisconnect\<close> and its \<^verbatim>\<open>finally\<close>. An exception of the teardown replaces
  the one of the loop. \<open>inputs\<close> are the messages of the client up to its disconnection,
  \<open>fin\<close> is the environment of the teardown.
\<close>

definition run_session ::
  "manager \<Rightarrow> websocket \<Rightarrow> string \<Rightarrow> json \<Rightarrow> json \<Rightarrow> (received \<times> env) list \<Rightarrow> env \<Rightarrow>
     session_end" where
  "run_session s websocket board_id user_id user_name inputs fin =
     (let r = active_loop s websocket board_id user_id user_name inputs
      in case teardown (state r) board_id (bound_user_id r) user_name fin of
           (s3, d3, Some err) \<Rightarrow>
             \<lparr>final = s3, delivered = sent r @ d3, closed_on = Some err\<rparr>
         | (s3, d3, None) \<Rightarrow>
             \<lparr>final = s3, delivered = sent r @ d3,
              closed_on = (if raised r = Some WebSocketDisconnect then None else raised r)\<rparr>)"

text \<open>Lines 159-192, for the dictionary \<^verbatim>\<open>data\<close> received first.\<close>

definition join_session ::
  "manager \<Rightarrow> websocket \<Rightarrow> string \<Rightarrow> pydict \<Rightarrow> env \<Rightarrow> (received \<times> env) list \<Rightarrow> env \<Rightarrow>
     session_end" where
  "join_session s websocket board_id data e rest fin =
     (case register_user s websocket board_id data e of
        (s1, Inl err) \<Rightarrow> \<lparr>final = s1, delivered = [], closed_on = Some err\<rparr>
      | (s1, Inr (user_id, user_name, color, session_id)) \<Rightarrow>
          (case send_to_user websocket
                  (Init user_id user_name color session_id
                     (case map_of (board_data s1) board_id of
                        None \<Rightarrow> default_board | Some bd \<Rightarrow> bd)
                     (case map_of (board_data s1) board_id of
                        None \<Rightarrow> [] | Some bd \<Rightarrow> users bd))
                  (send_ok e) of
             Inl err \<Rightarrow> \<lparr>final = s1, delivered = [], closed_on = Some err\<rparr>
           | Inr d0 \<Rightarrow>
               (case broadcast s1 board_id
                       (UserJoined (new_entry user_id user_name color e))
                       user_id (send_ok e) of
                  (s2, d1, Some err) \<Rightarrow>
                    \<lparr>final = s2, delivered = d0 @ d1, closed_on = Some err\<rparr>
                | (s2, d1, None) \<Rightarrow>
                    (let r = run_session s2 websocket board_id user_id user_name rest fin
                     in r\<lparr>delivered := d0 @ d1 @ delivered r\<rparr>))))"

text \<open>
  The whole coroutine. \<^verbatim>\<open>data["type"]\<close> at line 159 raises \<^verbatim>\<open>TypeError\<close> on a value that
  is not a dictionary and \<^verbatim>\<open>KeyError\<close> on a dictionary without the key; with another
  type than \<^verbatim>\<open>user_join\<close> the coroutine returns.
\<close>

definition websocket_endpoint ::
  "manager \<Rightarrow> websocket \<Rightarrow> string \<Rightarrow> (received \<times> env) list \<Rightarrow> env \<Rightarrow> session_end" where
  "websocket_endpoint s websocket board_id inputs fin =
     (case inputs of
        [] \<Rightarrow> \<lparr>final = s, delivered = [], closed_on = Some WebSocketDisconnect\<rparr>
      | (first, e) # rest \<Rightarrow>
          (case first of
             NotJson \<Rightarrow> \<lparr>final = s, delivered = [], closed_on = Some JSONDecodeError\<rparr>
           | Json data \<Rightarrow>
               (case data of
                  JObj d \<Rightarrow>
                    (case map_of d ''type'' of
                       None \<Rightarrow> \<lparr>final = s, delivered = [], closed_on = Some KeyError\<rparr>
                     | Some t \<Rightarrow>
                         if t \<noteq> JStr ''user_join''
                         then \<lparr>final = s, delivered = [], closed_on = None\<rparr>
                         else join_session s websocket board_id d e rest fin)
                | _ \<Rightarrow> \<lparr>final = s, delivered = [], closed_on = Some TypeError\<rparr>)))"

subsection \<open>Observations on the manager and its invariant\<close>

definition members :: "manager \<Rightarrow> string \<Rightarrow> (json \<times> websocket) list" where
  "members s board_id =
     (case map_of (active_connections s) board_id of None \<Rightarrow> [] | Some conns \<Rightarrow> conns)"

text \<open>The connection registered on the board under a key (a user id in normal form).\<close>

definition connection_of :: "manager \<Rightarrow> string \<Rightarrow> json \<Rightarrow> websocket option" where
  "connection_of s board_id key = map_of (members s board_id) key"

definition roster_ids :: "manager \<Rightarrow> string \<Rightarrow> json list" where
  "roster_ids s board_id =
     (case map_of (board_data s) board_id of
        None \<Rightarrow> []
      | Some bd \<Rightarrow> map entry_id (users bd))"

definition board_objects :: "manager \<Rightarrow> string \<Rightarrow> json list option" where
  "board_objects s board_id = map_option objects (map_of (board_data s) board_id)"

definition infos_of :: "manager \<Rightarrow> string \<Rightarrow> (json \<times> user_data) list" where
  "infos_of s board_id =
     (case map_of (user_info s) board_id of None \<Rightarrow> [] | Some infos \<Rightarrow> infos)"

definition present_colors :: "manager \<Rightarrow> string \<Rightarrow> string list" where
  "present_colors s board_id = map (info_color \<circ> snd) (infos_of s board_id)"




text \<open>
  The three dictionaries of the manager hold the same boards; on each board the
  connections, the user records and the list \<^verbatim>\<open>users\<close> hold the same user ids, once each.
\<close>

definition wf_board :: "manager \<Rightarrow> string \<Rightarrow> bool" where
  "wf_board s b =
     (case map_of (active_connections s) b of
        None \<Rightarrow> False
      | Some conns \<Rightarrow>
          (case map_of (user_info s) b of
             None \<Rightarrow> False
           | Some infos \<Rightarrow>
               (case map_of (board_data s) b of
                  None \<Rightarrow> False
                | Some bd \<Rightarrow>
                    map fst infos = map fst conns \<and>
                    map (norm_key \<circ> entry_id) (users bd) = map fst conns \<and>
                    list_all (hashable \<circ> entry_id) (users bd) \<and>
                    distinct (map fst conns))))"

definition wf :: "manager \<Rightarrow> bool" where
  "wf s =
     (map fst (board_data s) = map fst (active_connections s) \<and>
      map fst (user_info s) = map fst (active_connections s) \<and>
      distinct (map fst (active_connections s)) \<and>
      list_all (wf_board s) (map fst (active_connections s)))"

text \<open>The two shapes of a change of one board: all three entries set, all three deleted.\<close>

definition put_board ::
  "manager \<Rightarrow> string \<Rightarrow> (json \<times> websocket) list \<Rightarrow> board \<Rightarrow> (json \<times> user_data) list \<Rightarrow>
     manager" where
  "put_board s b conns bd infos =
     \<lparr>active_connections = AList.update b conns (active_connections s),
      board_data = AList.update b bd (board_data s),
      user_info = AList.update b infos (user_info s)\<rparr>"

definition drop_board :: "manager \<Rightarrow> string \<Rightarrow> manager" where
  "drop_board s b =
     \<lparr>active_connections = AList.delete b (active_connections s),
      board_data = AList.delete b (board_data s),
      user_info = AList.delete b (user_info s)\<rparr>"

definition without_user :: "board \<Rightarrow> json \<Rightarrow> board" where
  "without_user bd u = bd\<lparr>users := filter (\<lambda>x. \<not> py_eq (entry_id x) u) (users bd)\<rparr>"

text \<open>The test of line 159 on what was received first.\<close>

definition is_join :: "received \<Rightarrow> bool" where
  "is_join first =
     (case first of
        NotJson \<Rightarrow> False
      | Json data \<Rightarrow>
          (case data of
             JObj d \<Rightarrow> map_of d ''type'' = Some (JStr ''user_join'')
           | _ \<Rightarrow> False))"

subsection \<open>A sample environment and sample messages\<close>

text \<open>An environment in which every send succeeds, and one in which none does.\<close>

definition env_ok :: env where
  "env_ok = \<lparr>uuid_a = ''uuid-1'', uuid_b = ''uuid-2'', adjective_pick = 0, noun_pick = 0,
     now = ''2024-01-01T00:00:00'', obj_stamp = ''obj_1_1000'', send_ok = (\<lambda>w. True)\<rparr>"

definition env_dead :: env where
  "env_dead = env_ok\<lparr>send_ok := (\<lambda>w. False)\<rparr>"

text \<open>Some messages of a client.\<close>

definition join_fields :: "string \<Rightarrow> pydict" where
  "join_fields u = [(''type'', JStr ''user_join''), (''userId'', JStr u)]"

definition join_as :: "string \<Rightarrow> json" where
  "join_as u = JObj (join_fields u)"

definition join_with_list :: pydict where
  "join_with_list = [(''type'', JStr ''user_join''), (''userId'', JArr [JNum 1])]"

definition ping :: json where
  "ping = JObj [(''type'', JStr ''ping'')]"


definition rect :: pydict where
  "rect = [(''id'', JStr ''o1''), (''kind'', JStr ''rect'')]"



definition add_rect :: json where
  "add_rect = JObj [(''type'', JStr ''add_object''), (''object'', JObj rect)]"




definition move_cursor :: json where
  "move_cursor = JObj [(''type'', JStr ''cursor_move''), (''position'', JNum 5)]"

definition rename_alice :: json where
  "rename_alice = JObj [(''type'', JStr ''update_user''), (''userId'', JStr ''alice''),
     (''oldName'', JStr ''Al''), (''newName'', JStr ''Alice'')]"



text \<open>The manager after the user \<open>alice\<close> has joined the board \<open>b1\<close> on socket 1.\<close>

definition one_user :: manager where
  "one_user = fst (register_user init_manager 1 ''b1'' (join_fields ''alice'') env_ok)"

text \<open>Then \<open>bob\<close> joins the same board on socket 2.\<close>

definition two_users :: manager where
  "two_users = fst (register_user one_user 2 ''b1'' (join_fields ''bob'') env_ok)"


text \<open>Several users join one board, one after the other.\<close>

fun join_all :: "manager \<Rightarrow> string \<Rightarrow> (string \<times> websocket) list \<Rightarrow> manager" where
  "join_all s board_id [] = s"
| "join_all s board_id ((u, w) # rest) =
     join_all (fst (register_user s w board_id (join_fields u) env_ok)) board_id rest"

definition ten_users :: manager where
  "ten_users = join_all init_manager ''b1''
     [(''u0'', 0), (''u1'', 1), (''u2'', 2), (''u3'', 3), (''u4'', 4),
      (''u5'', 5), (''u6'', 6), (''u7'', 7), (''u8'', 8), (''u9'', 9)]"

section \<open>Auxiliary lemmas\<close>

subsection \<open>Association lists\<close>

lemma has_key_iff: "has_key k d \<longleftrightarrow> k \<in> set (map fst d)"
  by (simp add: has_key_def map_of_eq_None_iff)

lemma map_of_update_if:
  "map_of (AList.update k v al) k' = (if k' = k then Some v else map_of al k')"
  by (simp add: update_conv')

lemma map_of_delete_if:
  "map_of (AList.delete k al) k' = (if k' = k then None else map_of al k')"
  by (simp add: delete_conv')

lemma map_of_keys_eq:
  "map fst xs = map fst ys \<Longrightarrow> (map_of xs k = None) = (map_of ys k = None)"
  by (metis map_of_eq_None_iff set_map)

lemma delete_absent: "map_of al k = None \<Longrightarrow> AList.delete k al = al"
  by (simp add: map_of_eq_None_iff)

lemma delete_if_has_key:
  "(if has_key u conns then AList.delete u conns else conns) = AList.delete u conns"
  by (simp add: has_key_iff)

lemma update_present_keys:
  "map_of al k = Some v \<Longrightarrow> map fst (AList.update k v' al) = map fst al"
  by (simp add: update_keys) (metis map_of_eq_None_iff option.distinct(1) set_map)


lemma lookup_in_keys: "map_of al k = Some v \<Longrightarrow> k \<in> set (map fst al)"
  by (metis map_of_eq_None_iff option.distinct(1) set_map)

subsection \<open>Keys\<close>

lemma py_eq_norm_key:
  "hashable a \<Longrightarrow> hashable b \<Longrightarrow> py_eq a b = (norm_key a = norm_key b)"
  by (cases a; cases b) auto

lemma norm_key_idem [simp]: "norm_key (norm_key k) = norm_key k"
  by (cases k) auto

lemma hashable_norm_key [simp]: "hashable (norm_key k) = hashable k"
  by (cases k) auto

lemma norm_key_JStr [simp]: "norm_key (JStr u) = JStr u"
  by simp

lemma filter_entry_keys:
  assumes "list_all (hashable \<circ> entry_id) xs" and "hashable u"
  shows "map (norm_key \<circ> entry_id) (filter (\<lambda>x. \<not> py_eq (entry_id x) u) xs) =
           removeAll (norm_key u) (map (norm_key \<circ> entry_id) xs)"
  using assms by (induction xs) (auto simp: py_eq_norm_key)

lemma list_ex_entry_key:
  assumes "list_all (hashable \<circ> entry_id) xs" and "hashable u"
  shows "list_ex (\<lambda>x. py_eq (entry_id x) u) xs \<longleftrightarrow>
           norm_key u \<in> set (map (norm_key \<circ> entry_id) xs)"
  using assms by (induction xs) (auto simp: py_eq_norm_key)

subsection \<open>The invariant\<close>

lemma wfD:
  assumes "wf s"
  shows "map fst (board_data s) = map fst (active_connections s)"
    and "map fst (user_info s) = map fst (active_connections s)"
    and "distinct (map fst (active_connections s))"
    and "k \<in> set (map fst (active_connections s)) \<Longrightarrow> wf_board s k"
  using assms unfolding wf_def list_all_iff by blast+

lemma wfI:
  assumes "map fst (board_data s) = map fst (active_connections s)"
    and "map fst (user_info s) = map fst (active_connections s)"
    and "distinct (map fst (active_connections s))"
    and "\<And>k. k \<in> set (map fst (active_connections s)) \<Longrightarrow> wf_board s k"
  shows "wf s"
  using assms unfolding wf_def list_all_iff by blast

lemma wf_init: "wf init_manager"
  by (simp add: wf_def init_manager_def)

lemma wf_lookup:
  assumes "wf s" and "map_of (active_connections s) b = Some conns"
  obtains infos bd where "map_of (user_info s) b = Some infos"
    and "map_of (board_data s) b = Some bd"
    and "map fst infos = map fst conns"
    and "map (norm_key \<circ> entry_id) (users bd) = map fst conns"
    and "list_all (hashable \<circ> entry_id) (users bd)"
    and "distinct (map fst conns)"
proof -
  have "wf_board s b"
    using lookup_in_keys[OF assms(2)] by (rule wfD(4)[OF assms(1)])
  then show thesis
    using assms(2) that by (auto simp: wf_board_def split: option.splits)
qed

lemma wf_absent:
  assumes "wf s" and "map_of (active_connections s) b = None"
  shows "map_of (board_data s) b = None" and "map_of (user_info s) b = None"
  using assms wfD(1,2)[OF assms(1)] by (metis map_of_eq_None_iff set_map)+

lemma wf_present:
  assumes "wf s"
  shows "(map_of (board_data s) b = None) = (map_of (active_connections s) b = None)"
    and "(map_of (user_info s) b = None) = (map_of (active_connections s) b = None)"
  using wfD(1,2)[OF assms] by (metis map_of_eq_None_iff set_map)+

lemma put_board_sel [simp]:
  "active_connections (put_board s b conns bd infos) = AList.update b conns (active_connections s)"
  "board_data (put_board s b conns bd infos) = AList.update b bd (board_data s)"
  "user_info (put_board s b conns bd infos) = AList.update b infos (user_info s)"
  by (simp_all add: put_board_def)

lemma drop_board_sel [simp]:
  "active_connections (drop_board s b) = AList.delete b (active_connections s)"
  "board_data (drop_board s b) = AList.delete b (board_data s)"
  "user_info (drop_board s b) = AList.delete b (user_info s)"
  by (simp_all add: drop_board_def)

lemma put_board_same:
  "map_of (active_connections s) b = Some conns \<Longrightarrow> map_of (board_data s) b = Some bd \<Longrightarrow>
   map_of (user_info s) b = Some infos \<Longrightarrow> put_board s b conns bd infos = s"
  by (simp add: put_board_def update_triv)

lemma wf_put_board:
  assumes "wf s" and "map fst infos = map fst conns"
    and "map (norm_key \<circ> entry_id) (users bd) = map fst conns"
    and "list_all (hashable \<circ> entry_id) (users bd)" and "distinct (map fst conns)"
  shows "wf (put_board s b conns bd infos)"
proof -
  let ?s' = "put_board s b conns bd infos"
  note keys = wfD(1-3)[OF assms(1)]
  have old: "wf_board s k" if "k \<in> set (map fst (active_connections s))" for k
    using that by (rule wfD(4)[OF assms(1)])
  have new: "wf_board ?s' b"
    using assms(2-5) by (simp add: wf_board_def map_of_update_if)
  have other: "wf_board ?s' k = wf_board s k" if "k \<noteq> b" for k
    using that by (simp add: wf_board_def map_of_update_if cong: option.case_cong)
  have "wf_board ?s' k" if "k \<in> set (map fst (active_connections ?s'))" for k
    using that new other old by (cases "k = b") (auto simp: update_keys split: if_splits)
  then show ?thesis
    using keys by (intro wfI) (simp_all add: update_keys del: set_map)
qed

lemma wf_drop_board:
  assumes "wf s"
  shows "wf (drop_board s b)"
proof -
  let ?s' = "drop_board s b"
  note keys = wfD(1-3)[OF assms(1)]
  have old: "wf_board s k" if "k \<in> set (map fst (active_connections s))" for k
    using that by (rule wfD(4)[OF assms(1)])
  have other: "wf_board ?s' k = wf_board s k" if "k \<noteq> b" for k
    using that by (simp add: wf_board_def map_of_delete_if cong: option.case_cong)
  have "wf_board ?s' k" if "k \<in> set (map fst (active_connections ?s'))" for k
    using that other old by (cases "k = b") (auto simp: delete_keys)
  then show ?thesis
    using keys by (intro wfI) (simp_all add: delete_keys distinct_removeAll del: set_map)
qed

text \<open>A change of the record of one board that keeps its user ids.\<close>

lemma wf_board_data_update:
  assumes "wf s" and "map_of (board_data s) b = Some bd"
    and "map entry_id (users bd') = map entry_id (users bd)"
  shows "wf (s\<lparr>board_data := AList.update b bd' (board_data s)\<rparr>)"
proof -
  obtain conns where c: "map_of (active_connections s) b = Some conns"
    using wf_present(1)[OF assms(1), of b] assms(2) by auto
  from wf_lookup[OF assms(1) c] obtain infos bd0 where
    l: "map_of (user_info s) b = Some infos" "map_of (board_data s) b = Some bd0"
    and k: "map fst infos = map fst conns"
      "map (norm_key \<circ> entry_id) (users bd0) = map fst conns"
      "list_all (hashable \<circ> entry_id) (users bd0)" "distinct (map fst conns)"
    by blast
  have e: "bd0 = bd" using l(2) assms(2) by simp
  have m: "map (norm_key \<circ> entry_id) (users bd') = map (norm_key \<circ> entry_id) (users bd)"
    using arg_cong[OF assms(3), of "map norm_key"] by simp
  have h: "list_all (hashable \<circ> entry_id) (users bd') =
      list_all (hashable \<circ> entry_id) (users bd)"
    using arg_cong[OF assms(3), of "list_all hashable"] by (simp add: list.pred_map)
  have "wf (put_board s b conns bd' infos)"
    using wf_put_board[OF assms(1) k(1) _ _ k(4), of bd' b] k(2,3) e m h by simp
  moreover have "put_board s b conns bd' infos =
          s\<lparr>board_data := AList.update b bd' (board_data s)\<rparr>"
    using c l(1) by (simp add: put_board_def update_triv)
  ultimately show ?thesis by simp
qed

lemma wf_user_info_update:
  assumes "wf s" and "map_of (user_info s) b = Some infos"
    and "map fst infos' = map fst infos"
  shows "wf (s\<lparr>user_info := AList.update b infos' (user_info s)\<rparr>)"
proof -
  obtain conns where c: "map_of (active_connections s) b = Some conns"
    using wf_present(2)[OF assms(1), of b] assms(2) by auto
  from wf_lookup[OF assms(1) c] obtain infos0 bd where
    l: "map_of (user_info s) b = Some infos0" "map_of (board_data s) b = Some bd"
    and k: "map fst infos0 = map fst conns"
      "map (norm_key \<circ> entry_id) (users bd) = map fst conns"
      "list_all (hashable \<circ> entry_id) (users bd)" "distinct (map fst conns)"
    by blast
  have "infos0 = infos" using l(1) assms(2) by simp
  then have "wf (put_board s b conns bd infos')"
    using wf_put_board[OF assms(1) _ k(2,3,4), of infos' b] k(1) assms(3) by simp
  moreover have "put_board s b conns bd infos' =
          s\<lparr>user_info := AList.update b infos' (user_info s)\<rparr>"
    using c l(2) by (simp add: put_board_def update_triv)
  ultimately show ?thesis by simp
qed

text \<open>The keys of a board can be hashed and are in normal form.\<close>

lemma wf_member_key:
  assumes "wf s" and "k \<in> set (map fst (members s b))"
  shows "hashable k" and "norm_key k = k"
proof -
  obtain conns where c: "map_of (active_connections s) b = Some conns"
    using assms(2) by (cases "map_of (active_connections s) b") (auto simp: members_def)
  from wf_lookup[OF assms(1) c] obtain infos bd where
    "map_of (user_info s) b = Some infos" "map_of (board_data s) b = Some bd"
    and r: "map (norm_key \<circ> entry_id) (users bd) = map fst conns"
    and h: "list_all (hashable \<circ> entry_id) (users bd)" by blast
  have "k \<in> set (map (norm_key \<circ> entry_id) (users bd))"
    using assms(2) c r by (simp add: members_def)
  then obtain x where x: "x \<in> set (users bd)" "k = norm_key (entry_id x)" by auto
  then have "hashable (entry_id x)" using h by (simp add: list_all_iff)
  then show "hashable k" and "norm_key k = k" using x(2) by simp_all
qed

subsection \<open>\<open>disconnect\<close>\<close>

lemma disconnect_no_board:
  "map_of (active_connections s) b = None \<Longrightarrow> disconnect s b u = (s, Inr (JStr ''User''))"
  by (simp add: disconnect_def)

lemma disconnect_unhashable:
  "\<not> hashable u \<Longrightarrow>
   disconnect s b u =
     (if has_key b (active_connections s) then (s, Inl TypeError) else (s, Inr (JStr ''User'')))"
  by (simp add: disconnect_def has_key_def split: option.splits)

lemma disconnect_member:
  assumes "hashable u"
    and "map_of (active_connections s) b = Some conns"
    and "map_of (user_info s) b = Some infos"
    and "map_of (board_data s) b = Some bd"
    and "map_of infos (norm_key u) = Some info"
  shows "disconnect s b u =
     (if AList.delete (norm_key u) conns = [] then (drop_board s b, Inr (info_name info))
      else (put_board s b (AList.delete (norm_key u) conns) (without_user bd u)
              (AList.delete (norm_key u) infos),
            Inr (info_name info)))"
proof -
  have k: "has_key b (AList.update b x (board_data s))" for x
    by (simp add: has_key_def map_of_update_if)
  show ?thesis
    using assms
    by (simp add: disconnect_def Let_def delete_if_has_key map_of_update_if k
        put_board_def drop_board_def without_user_def delete_update_same)
qed

lemma disconnect_stranger:
  assumes "hashable u"
    and "map_of (active_connections s) b = Some conns"
    and "map_of (user_info s) b = Some infos"
    and "map_of infos (norm_key u) = None"
  shows "disconnect s b u =
     (s\<lparr>active_connections :=
          AList.update b (AList.delete (norm_key u) conns) (active_connections s)\<rparr>,
      Inr (JStr ''User''))"
  using assms by (simp add: disconnect_def Let_def delete_if_has_key)

lemma disconnect_stranger_wf:
  assumes "wf s" and "hashable u" and "connection_of s b (norm_key u) = None"
  shows "disconnect s b u = (s, Inr (JStr ''User''))"
proof (cases "map_of (active_connections s) b")
  case None
  then show ?thesis by (rule disconnect_no_board)
next
  case (Some conns)
  from wf_lookup[OF assms(1) Some] obtain infos bd where
    l: "map_of (user_info s) b = Some infos" "map_of (board_data s) b = Some bd"
    and k: "map fst infos = map fst conns" by blast
  have cu: "map_of conns (norm_key u) = None"
    using assms(3) Some by (simp add: connection_of_def members_def)
  then have "map_of infos (norm_key u) = None"
    using map_of_keys_eq[OF k] by simp
  from disconnect_stranger[OF assms(2) Some l(1) this] show ?thesis
    using Some by (simp add: delete_absent[OF cu] update_triv)
qed

lemma only_key:
  assumes "AList.delete u conns = []" and "distinct (map fst conns)"
    and "map_of conns u = Some w"
  shows "conns = [(u, w)]"
proof (cases conns)
  case Nil
  then show ?thesis using assms(3) by simp
next
  case (Cons p ps)
  have p: "fst p = u" and "AList.delete u ps = []"
    using assms(1) Cons by (auto split: if_splits)
  moreover have "u \<notin> fst ` set ps"
    using assms(2) Cons p by auto
  ultimately have "ps = []" by simp
  then show ?thesis using assms(3) Cons p by (cases p) simp
qed

text \<open>
  In a state of the invariant, \<open>disconnect\<close> with an id that can be hashed does one of
  three things.
\<close>

lemma disconnect_wf_cases:
  assumes "wf s" and "hashable u"
  obtains (stranger) "connection_of s b (norm_key u) = None"
      "disconnect s b u = (s, Inr (JStr ''User''))"
  | (last) w infos info where "members s b = [(norm_key u, w)]"
      "map_of (user_info s) b = Some infos" "map_of infos (norm_key u) = Some info"
      "disconnect s b u = (drop_board s b, Inr (info_name info))"
  | (other) conns infos bd info where
      "map_of (active_connections s) b = Some conns" "map_of (user_info s) b = Some infos"
      "map_of (board_data s) b = Some bd" "map_of infos (norm_key u) = Some info"
      "AList.delete (norm_key u) conns \<noteq> []"
      "disconnect s b u =
         (put_board s b (AList.delete (norm_key u) conns) (without_user bd u)
            (AList.delete (norm_key u) infos),
          Inr (info_name info))"
      "wf (put_board s b (AList.delete (norm_key u) conns) (without_user bd u)
            (AList.delete (norm_key u) infos))"
proof (cases "connection_of s b (norm_key u)")
  case None
  then show thesis using disconnect_stranger_wf[OF assms None] stranger by blast
next
  case (Some w)
  then obtain conns where c: "map_of (active_connections s) b = Some conns"
    and cu: "map_of conns (norm_key u) = Some w"
    by (auto simp: connection_of_def members_def split: option.splits)
  from wf_lookup[OF assms(1) c] obtain infos bd where
    l: "map_of (user_info s) b = Some infos" "map_of (board_data s) b = Some bd"
    and k: "map fst infos = map fst conns"
      "map (norm_key \<circ> entry_id) (users bd) = map fst conns"
      "list_all (hashable \<circ> entry_id) (users bd)" "distinct (map fst conns)"
    by blast
  obtain info where i: "map_of infos (norm_key u) = Some info"
    using map_of_keys_eq[OF k(1), of "norm_key u"] cu by auto
  note d = disconnect_member[OF assms(2) c l i]
  show thesis
  proof (cases "AList.delete (norm_key u) conns = []")
    case True
    have "conns = [(norm_key u, w)]"
      using True k(4) cu by (rule only_key)
    then have "members s b = [(norm_key u, w)]"
      using c by (simp add: members_def)
    then show thesis
      using last[OF _ l(1) i] d True by simp
  next
    case False
    have h: "list_all (hashable \<circ> entry_id) (users (without_user bd u))"
      using k(3) by (simp add: without_user_def list_all_iff)
    have "wf (put_board s b (AList.delete (norm_key u) conns) (without_user bd u)
        (AList.delete (norm_key u) infos))"
      using wf_put_board[OF assms(1) _ _ h, of "AList.delete (norm_key u) infos"
          "AList.delete (norm_key u) conns" b] k
        filter_entry_keys[OF k(3) assms(2)]
      by (simp add: delete_keys distinct_removeAll without_user_def)
    then show thesis
      using other[OF c l i False] d False by simp
  qed
qed

lemma disconnect_wf:
  assumes "wf s"
  shows "wf (fst (disconnect s b u))"
    and "hashable u \<Longrightarrow> \<exists>n. snd (disconnect s b u) = Inr n"
proof -
  have h: "wf (fst (disconnect s b u)) \<and> (\<exists>n. snd (disconnect s b u) = Inr n)"
    if "hashable u"
    using assms wf_drop_board[OF assms, of b]
    by (cases rule: disconnect_wf_cases[OF assms that, of b,
          case_names stranger last other]; simp)
  show "wf (fst (disconnect s b u))"
    using h assms by (cases "hashable u") (simp_all add: disconnect_unhashable)
  show "hashable u \<Longrightarrow> \<exists>n. snd (disconnect s b u) = Inr n"
    using h by simp
qed

subsection \<open>\<open>register_user\<close>\<close>

lemma init_board_eq:
  "init_board s b =
     (if map_of (active_connections s) b = None
      then put_board s b [] \<lparr>objects = [], background = ''#FFFFFF'', users = []\<rparr> []
      else s)"
  by (simp add: init_board_def has_key_def put_board_def)

lemma wf_init_board:
  assumes "wf s"
  shows "wf (init_board s b)"
  using assms wf_put_board[OF assms, of "[]" "[]"
      "\<lparr>objects = [], background = ''#FFFFFF'', users = []\<rparr>" b]
  by (simp add: init_board_eq)

lemma register_user_unhashable:
  assumes "wf s" and "new_identity data e = (u, n, sid)" and "\<not> hashable u"
  shows "register_user s ws b data e = (init_board s b, Inl TypeError)"
proof (cases "map_of (active_connections s) b")
  case None
  then show ?thesis
    using assms(2,3)
    by (simp add: register_user_def init_board_eq map_of_update_if Let_def)
next
  case (Some conns)
  from wf_lookup[OF assms(1) Some] obtain infos bd where
    "map_of (user_info s) b = Some infos" "map_of (board_data s) b = Some bd" by blast
  then show ?thesis
    using assms(2,3) Some
    by (simp add: register_user_def init_board_eq Let_def)
qed

lemma register_user_new_board:
  assumes "wf s" and "map_of (active_connections s) b = None"
    and "new_identity data e = (u, n, sid)" and "hashable u"
  shows "register_user s ws b data e =
    (put_board s b [(norm_key u, ws)]
       \<lparr>objects = [], background = ''#FFFFFF'', users = [new_entry u n (assign_color []) e]\<rparr>
       [(norm_key u, new_info u n (assign_color []) sid e)],
     Inr (u, n, assign_color [], sid))"
  using assms(2,3,4) wf_absent[OF assms(1,2)]
  by (simp add: register_user_def init_board_def has_key_def Let_def map_of_update_if
      put_board_def)

lemma register_user_old_board:
  assumes "map_of (active_connections s) b = Some conns"
    and "map_of (user_info s) b = Some infos"
    and "map_of (board_data s) b = Some bd"
    and "new_identity data e = (u, n, sid)" and "hashable u"
  shows "register_user s ws b data e =
    (put_board s b (AList.update (norm_key u) ws conns)
       (bd\<lparr>users := (if list_ex (\<lambda>x. py_eq (entry_id x) u) (users bd) then users bd
                     else users bd @ [new_entry u n (assign_color infos) e])\<rparr>)
       (AList.update (norm_key u) (new_info u n (assign_color infos) sid e) infos),
     Inr (u, n, assign_color infos, sid))"
  using assms
  by (simp add: register_user_def init_board_def has_key_def Let_def map_of_update_if
      put_board_def update_triv)

lemma register_user_wf:
  assumes "wf s"
  shows "wf (fst (register_user s ws b data e))"
    and "hashable (fst (new_identity data e)) \<Longrightarrow> \<exists>r. snd (register_user s ws b data e) = Inr r"
    and "\<not> hashable (fst (new_identity data e)) \<Longrightarrow>
           register_user s ws b data e = (init_board s b, Inl TypeError)"
proof -
  obtain u n sid where id: "new_identity data e = (u, n, sid)"
    by (cases "new_identity data e") auto
  have good: "wf (fst (register_user s ws b data e)) \<and>
        (\<exists>r. snd (register_user s ws b data e) = Inr r)" if hu: "hashable u"
  proof (cases "map_of (active_connections s) b")
    case None
    show ?thesis
      using register_user_new_board[OF assms None id hu, of ws]
        wf_put_board[OF assms, of "[(norm_key u, new_info u n (assign_color []) sid e)]"
          "[(norm_key u, ws)]"
          "\<lparr>objects = [], background = ''#FFFFFF'',
            users = [new_entry u n (assign_color []) e]\<rparr>" b] hu
      by (simp add: new_entry_def)
  next
    case (Some conns)
    from wf_lookup[OF assms Some] obtain infos bd where
      l: "map_of (user_info s) b = Some infos" "map_of (board_data s) b = Some bd"
      and c: "map fst infos = map fst conns"
        "map (norm_key \<circ> entry_id) (users bd) = map fst conns"
        "list_all (hashable \<circ> entry_id) (users bd)" "distinct (map fst conns)"
      by blast
    let ?bd = "bd\<lparr>users := (if list_ex (\<lambda>x. py_eq (entry_id x) u) (users bd) then users bd
                     else users bd @ [new_entry u n (assign_color infos) e])\<rparr>"
    have k: "map fst (AList.update (norm_key u) (new_info u n (assign_color infos) sid e) infos) =
        map fst (AList.update (norm_key u) ws conns)"
      using c(1) by (simp add: update_keys)
    have r: "map (norm_key \<circ> entry_id) (users ?bd) = map fst (AList.update (norm_key u) ws conns)"
      using c(2) list_ex_entry_key[OF c(3) hu]
      by (simp add: update_keys new_entry_def del: set_map)
    have h: "list_all (hashable \<circ> entry_id) (users ?bd)"
      using c(3) hu by (simp add: new_entry_def)
    have d: "distinct (map fst (AList.update (norm_key u) ws conns))"
      using c(4) by (rule distinct_update)
    show ?thesis
      using register_user_old_board[OF Some l id hu, of ws]
        wf_put_board[OF assms k r h d, of b]
      by simp
  qed
  show "wf (fst (register_user s ws b data e))"
    using good register_user_unhashable[OF assms id, of ws b] wf_init_board[OF assms, of b]
    by (cases "hashable u") simp_all
  show "hashable (fst (new_identity data e)) \<Longrightarrow> \<exists>r. snd (register_user s ws b data e) = Inr r"
    using good id by simp
  show "\<not> hashable (fst (new_identity data e)) \<Longrightarrow>
           register_user s ws b data e = (init_board s b, Inl TypeError)"
    using register_user_unhashable[OF assms id, of ws b] id by simp
qed

subsection \<open>\<open>broadcast\<close>\<close>

lemma send_all_eq:
  "send_all ok m conns =
     (map (\<lambda>(u, w). (w, m)) (filter (\<lambda>(u, w). ok w) conns),
      map fst (filter (\<lambda>(u, w). \<not> ok w) conns))"
  by (induction conns) (auto split: prod.splits)

lemma disconnect_all_wf:
  assumes "wf s"
  shows "wf (fst (disconnect_all s b us))"
    and "list_all hashable us \<Longrightarrow> snd (disconnect_all s b us) = None"
proof -
  show "wf (fst (disconnect_all s b us))"
    using assms
  proof (induction us arbitrary: s)
    case Nil
    then show ?case by simp
  next
    case (Cons u us)
    obtain s' r where d: "disconnect s b u = (s', r)" by (cases "disconnect s b u") auto
    from disconnect_wf(1)[OF Cons.prems, where b = b and u = u] d have w: "wf s'" by simp
    show ?case using Cons.IH[OF w] d w by (cases r) simp_all
  qed
  show "list_all hashable us \<Longrightarrow> snd (disconnect_all s b us) = None"
    using assms
  proof (induction us arbitrary: s)
    case Nil
    then show ?case by simp
  next
    case (Cons u us)
    obtain s' r where d: "disconnect s b u = (s', r)" by (cases "disconnect s b u") auto
    from disconnect_wf[OF Cons.prems(2), where b = b and u = u] d Cons.prems(1)
    obtain n where "wf s'" "r = Inr n" by auto
    then show ?case using Cons.IH[of s'] Cons.prems(1) d by simp
  qed
qed

lemma broadcast_eq:
  "broadcast s b m x ok =
     (fst (disconnect_all s b (map fst (filter (\<lambda>(u, w). \<not> ok w) (members s b)))),
      map (\<lambda>(u, w). (w, m)) (filter (\<lambda>(u, w). ok w) (members s b)),
      snd (disconnect_all s b (map fst (filter (\<lambda>(u, w). \<not> ok w) (members s b)))))"
  by (simp add: broadcast_def members_def send_all_eq split: option.splits prod.splits)

lemma failed_keys:
  assumes "wf s"
  shows "list_all (\<lambda>k. hashable k \<and> norm_key k = k)
           (map fst (filter (\<lambda>(u, w). \<not> ok w) (members s b)))"
    and "distinct (map fst (filter (\<lambda>(u, w). \<not> ok w) (members s b)))"
    and "set (map fst (filter (\<lambda>(u, w). \<not> ok w) (members s b))) \<subseteq> set (map fst (members s b))"
proof -
  show "list_all (\<lambda>k. hashable k \<and> norm_key k = k)
           (map fst (filter (\<lambda>(u, w). \<not> ok w) (members s b)))"
    using wf_member_key[OF assms, of _ b] by (auto simp: list_all_iff)
  have "distinct (map fst (members s b))"
  proof (cases "map_of (active_connections s) b")
    case None
    then show ?thesis by (simp add: members_def)
  next
    case (Some conns)
    from wf_lookup[OF assms Some] have "distinct (map fst conns)" by blast
    then show ?thesis using Some by (simp add: members_def)
  qed
  then show "distinct (map fst (filter (\<lambda>(u, w). \<not> ok w) (members s b)))"
    by (rule distinct_map_filter)
  show "set (map fst (filter (\<lambda>(u, w). \<not> ok w) (members s b))) \<subseteq> set (map fst (members s b))"
    by auto
qed

lemma broadcast_wf:
  assumes "wf s"
  shows "wf (fst (broadcast s b m x ok))" and "snd (snd (broadcast s b m x ok)) = None"
proof -
  have "list_all hashable (map fst (filter (\<lambda>(u, w). \<not> ok w) (members s b)))"
    using failed_keys(1)[OF assms, of ok b] by (simp add: list_all_iff)
  then show "wf (fst (broadcast s b m x ok))" and "snd (snd (broadcast s b m x ok)) = None"
    using disconnect_all_wf[OF assms] by (simp_all add: broadcast_eq)
qed

lemma broadcast_all_ok:
  assumes "list_all (\<lambda>(u, w). ok w) (members s b)"
  shows "broadcast s b m x ok = (s, map (\<lambda>(u, w). (w, m)) (members s b), None)"
proof -
  have "filter (\<lambda>(u, w). \<not> ok w) (members s b) = []"
    using assms by (auto simp: filter_empty_conv list_all_iff)
  moreover have "filter (\<lambda>(u, w). ok w) (members s b) = members s b"
    using assms by (auto simp: filter_id_conv list_all_iff)
  ultimately show ?thesis by (simp add: broadcast_eq)
qed

subsection \<open>What the operations do to the members of a board\<close>

lemma members_put_board:
  "members (put_board s b conns bd infos) b' = (if b' = b then conns else members s b')"
  by (simp add: members_def map_of_update_if)




lemma wf_distinct_members:
  assumes "wf s"
  shows "distinct (map fst (members s b))"
proof (cases "map_of (active_connections s) b")
  case None
  then show ?thesis by (simp add: members_def)
next
  case (Some conns)
  from wf_lookup[OF assms Some] have "distinct (map fst conns)" by blast
  then show ?thesis using Some by (simp add: members_def)
qed

lemma wf_roster_keys:
  assumes "wf s"
  shows "map norm_key (roster_ids s b) = map fst (members s b)"
    and "list_all hashable (roster_ids s b)"
proof -
  have "map norm_key (roster_ids s b) = map fst (members s b) \<and>
        list_all hashable (roster_ids s b)"
  proof (cases "map_of (active_connections s) b")
    case None
    then show ?thesis using wf_absent(1)[OF assms None]
      by (simp add: members_def roster_ids_def)
  next
    case (Some conns)
    from wf_lookup[OF assms Some] obtain infos bd where
      "map_of (user_info s) b = Some infos"
      "map_of (board_data s) b = Some bd"
      "map (norm_key \<circ> entry_id) (users bd) = map fst conns"
      "list_all (hashable \<circ> entry_id) (users bd)" by blast
    then show ?thesis using Some
      by (simp add: members_def roster_ids_def list.pred_map)
  qed
  then show "map norm_key (roster_ids s b) = map fst (members s b)"
    and "list_all hashable (roster_ids s b)" by simp_all
qed

lemma wf_infos_keys:
  assumes "wf s"
  shows "map fst (infos_of s b) = map fst (members s b)"
proof (cases "map_of (active_connections s) b")
  case None
  then show ?thesis using wf_absent(2)[OF assms None]
    by (simp add: members_def infos_of_def)
next
  case (Some conns)
  from wf_lookup[OF assms Some] obtain infos bd where
    "map_of (user_info s) b = Some infos" "map_of (board_data s) b = Some bd"
    "map fst infos = map fst conns" by blast
  then show ?thesis using Some by (simp add: members_def infos_of_def)
qed








subsection \<open>The handlers keep the invariant\<close>

lemma wf_set_objects:
  assumes "wf s"
  shows "wf (set_objects s b f)"
proof (cases "map_of (board_data s) b")
  case None
  then show ?thesis using assms by (simp add: set_objects_def)
next
  case (Some bd)
  show ?thesis
    using wf_board_data_update[OF assms Some, of "bd\<lparr>objects := f (objects bd)\<rparr>"] Some
    by (simp add: set_objects_def)
qed

lemma members_set_objects [simp]: "members (set_objects s b f) b' = members s b'"
  by (simp add: set_objects_def members_def split: option.splits)

lemma board_objects_set_objects:
  "board_objects (set_objects s b f) b' =
     (if b' = b then map_option f (board_objects s b) else board_objects s b')"
  by (simp add: set_objects_def board_objects_def map_of_update_if split: option.splits)

lemma roster_ids_set_objects [simp]: "roster_ids (set_objects s b f) b' = roster_ids s b'"
  by (simp add: set_objects_def roster_ids_def map_of_update_if split: option.splits)

lemma scan_objects_cases:
  obtains (raises) err where "scan_objects s b f = Inl err"
  | (stores) objs where "scan_objects s b f = Inr (set_objects s b (\<lambda>_. objs))"
  | (absent) "map_of (board_data s) b = None" "scan_objects s b f = Inr s"
  by (cases "map_of (board_data s) b"; cases "f (objects (the (map_of (board_data s) b)))")
    (auto simp: scan_objects_def)

lemma wf_scan_objects:
  assumes "wf s" and "scan_objects s b f = Inr s1"
  shows "wf s1" and "members s1 b' = members s b'"
  using assms wf_set_objects[OF assms(1)]
  by (cases rule: scan_objects_cases[of s b f]; auto)+

lemma rename_first_ids: "map entry_id (rename_first u n xs) = map entry_id xs"
  by (induction xs) auto

lemma wf_set_name:
  assumes "wf s" and "set_name s b u n = Inr s1"
  shows "wf s1"
  using assms wf_user_info_update[OF assms(1)]
  by (auto simp: set_name_def update_present_keys split: option.splits if_splits)

lemma wf_rename_roster:
  assumes "wf s"
  shows "wf (rename_roster s b u n)"
proof (cases "map_of (board_data s) b")
  case None
  then show ?thesis using assms by (simp add: rename_roster_def)
next
  case (Some bd)
  show ?thesis
    using wf_board_data_update[OF assms Some, of "bd\<lparr>users := rename_first u n (users bd)\<rparr>"]
      Some by (simp add: rename_roster_def rename_first_ids)
qed

lemma wf_rename_user:
  assumes "wf s" and "rename_user s b u n = Inr s1"
  shows "wf s1"
  using assms wf_set_name[OF assms(1)] wf_rename_roster
  by (auto simp: rename_user_def split: sum.splits)


lemma members_rename_roster [simp]: "members (rename_roster s b u n) b' = members s b'"
  by (simp add: rename_roster_def members_def split: option.splits)


lemma after_broadcast_sel [simp]:
  "state (after_broadcast u r) = fst r"
  "sent (after_broadcast u r) = fst (snd r)"
  "bound_user_id (after_broadcast u r) = u"
  "raised (after_broadcast u r) = snd (snd r)"
  by (simp_all add: after_broadcast_def split: prod.splits)

lemma raise_sel [simp]:
  "state (raise s u err) = s" "sent (raise s u err) = []"
  "bound_user_id (raise s u err) = u" "raised (raise s u err) = Some err"
  by (simp_all add: raise_def)

lemma wf_set_cursor:
  assumes "wf s" and "set_cursor s b u data = Inr s1"
  shows "wf s1"
  using assms wf_user_info_update[OF assms(1)]
  by (auto simp: set_cursor_def update_present_keys split: option.splits if_splits)

lemma members_set_cursor: "set_cursor s b u data = Inr s1 \<Longrightarrow> members s1 b' = members s b'"
  by (auto simp: set_cursor_def members_def split: option.splits if_splits)

lemma wf_on_add_object:
  assumes "wf s"
  shows "wf (state (on_add_object s b u data e))"
proof (cases "map_of data ''object''")
  case None
  then show ?thesis using assms by (simp add: on_add_object_def)
next
  case (Some obj)
  show ?thesis
    using Some assms broadcast_wf(1)[OF wf_set_objects[OF assms]]
    by (cases obj) (simp_all add: on_add_object_def Let_def)
qed

lemma wf_on_update_user:
  assumes "wf s"
  shows "wf (state (on_update_user s b data e))"
    and "wf (state (on_update_user_second s b u data e))"
  using assms wf_rename_user[OF assms] broadcast_wf(1)
  by (auto simp: on_update_user_def on_update_user_second_def Let_def split: sum.splits)

lemma wf_on_modify_object:
  assumes "wf s"
  shows "wf (state (on_modify_object s b u data e))"
  using assms wf_scan_objects(1)[OF assms] broadcast_wf(1)
  by (auto simp: on_modify_object_def Let_def split: option.splits sum.splits)

lemma wf_on_remove_object:
  assumes "wf s"
  shows "wf (state (on_remove_object s b u data e))"
  using assms wf_scan_objects(1)[OF assms] broadcast_wf(1)
  by (auto simp: on_remove_object_def Let_def split: option.splits sum.splits if_splits)

lemma wf_on_clear_board:
  assumes "wf s"
  shows "wf (state (on_clear_board s b u n data e))"
  using broadcast_wf(1)[OF wf_set_objects[OF assms]]
  by (simp add: on_clear_board_def Let_def)

lemma wf_on_cursor_move:
  assumes "wf s"
  shows "wf (state (on_cursor_move s b u data e))"
  using assms wf_set_cursor[OF assms] broadcast_wf(1)
  by (auto simp: on_cursor_move_def Let_def split: option.splits sum.splits)

lemma wf_on_ping:
  assumes "wf s"
  shows "wf (state (on_ping s ws u e))"
  using assms by (simp add: on_ping_def split: sum.splits)

lemma wf_dispatch:
  assumes "wf s"
  shows "wf (state (dispatch s ws b u n data e))"
  using assms wf_on_add_object[OF assms] wf_on_update_user[OF assms]
    wf_on_modify_object[OF assms] wf_on_remove_object[OF assms] wf_on_clear_board[OF assms]
    wf_on_cursor_move[OF assms] wf_on_ping[OF assms]
  by (simp add: dispatch_def split: option.splits)

lemma wf_handle_event:
  assumes "wf s"
  shows "wf (state (handle_event s ws b u n data e))"
  using assms wf_dispatch[OF assms]
  by (cases data) (simp_all add: handle_event_def)

lemma wf_active_loop:
  assumes "wf s"
  shows "wf (state (active_loop s ws b u n inputs))"
  using assms
proof (induction inputs arbitrary: s u)
  case Nil
  then show ?case by simp
next
  case (Cons p inputs)
  obtain r e where p: "p = (r, e)" by (cases p)
  show ?case
  proof (cases r)
    case NotJson
    then show ?thesis using Cons.prems p by simp
  next
    case (Json data)
    have "wf (state (handle_event s ws b u n data e))"
      by (rule wf_handle_event[OF Cons.prems])
    then show ?thesis
      using Cons.IH p Json by (simp add: Let_def split: option.splits)
  qed
qed


lemma wf_teardown:
  assumes "wf s"
  shows "wf (fst (teardown s b u n e))"
proof (cases "truthy u")
  case False
  then show ?thesis using assms by (simp add: teardown_def)
next
  case True
  obtain s1 r where d: "disconnect s b u = (s1, r)" by (cases "disconnect s b u") auto
  have "wf s1" using disconnect_wf(1)[OF assms, of b u] d by simp
  then show ?thesis
    using True d broadcast_wf(1) by (cases r) (simp_all add: teardown_def)
qed

lemma wf_run_session:
  assumes "wf s"
  shows "wf (final (run_session s ws b u n inputs fin))"
proof -
  let ?r = "active_loop s ws b u n inputs"
  have "wf (fst (teardown (state ?r) b (bound_user_id ?r) n fin))"
    by (rule wf_teardown[OF wf_active_loop[OF assms]])
  then show ?thesis
    by (auto simp: run_session_def Let_def split: prod.splits option.splits)
qed

lemma wf_join_session:
  assumes "wf s"
  shows "wf (final (join_session s ws b data e rest fin))"
proof -
  obtain s1 res where reg: "register_user s ws b data e = (s1, res)"
    by (cases "register_user s ws b data e") auto
  have w1: "wf s1" using register_user_wf(1)[OF assms, of ws b data e] reg by simp
  show ?thesis
  proof (cases res)
    case (Inl err)
    then show ?thesis using reg w1 by (simp add: join_session_def)
  next
    case (Inr t)
    obtain u n c sid where t: "t = (u, n, c, sid)" by (cases t) auto
    obtain s2 d1 err where bc: "broadcast s1 b (UserJoined (new_entry u n c e)) u
        (send_ok e) = (s2, d1, err)"
      by (metis prod_cases3)
    have w2: "wf s2"
      using broadcast_wf(1)[OF w1, of b "UserJoined (new_entry u n c e)" u "send_ok e"] bc
      by simp
    have w3: "wf (final (run_session s2 ws b u n rest fin))"
      by (rule wf_run_session[OF w2])
    show ?thesis
      using reg Inr t bc w1 w2 w3
      by (cases err) (simp_all add: join_session_def send_to_user_def Let_def)
  qed
qed

lemma wf_websocket_endpoint:
  assumes "wf s"
  shows "wf (final (websocket_endpoint s ws b inputs fin))"
  using assms wf_join_session[OF assms]
  by (auto simp: websocket_endpoint_def split: list.splits received.splits json.splits
      option.splits)

subsection \<open>The sample states\<close>

lemma join_fields_identity:
  "u \<noteq> [] \<Longrightarrow> new_identity (join_fields u) e = (JStr u, JNull, JNull)"
  by (simp add: new_identity_def join_fields_def dict_get_def Let_def)

lemma assign_color_Nil: "assign_color [] = ''#FF6B6B''"
  by (simp add: assign_color_def colors_def)

lemma one_user_eq:
  "one_user =
     \<lparr>active_connections = [(''b1'', [(JStr ''alice'', 1)])],
      board_data = [(''b1'', \<lparr>objects = [], background = ''#FFFFFF'',
         users = [new_entry (JStr ''alice'') JNull ''#FF6B6B'' env_ok]\<rparr>)],
      user_info = [(''b1'', [(JStr ''alice'',
         new_info (JStr ''alice'') JNull ''#FF6B6B'' JNull env_ok)])]\<rparr>"
  using register_user_new_board[OF wf_init, of "''b1''" "join_fields ''alice''" env_ok
      "JStr ''alice''" JNull JNull 1]
  by (simp add: one_user_def join_fields_identity assign_color_Nil put_board_def init_manager_def)

lemma wf_one_user: "wf one_user"
  unfolding one_user_def by (rule register_user_wf(1)[OF wf_init])

lemma two_users_eq:
  "two_users =
     \<lparr>active_connections = [(''b1'', [(JStr ''alice'', 1), (JStr ''bob'', 2)])],
      board_data = [(''b1'', \<lparr>objects = [], background = ''#FFFFFF'',
         users = [new_entry (JStr ''alice'') JNull ''#FF6B6B'' env_ok,
                  new_entry (JStr ''bob'') JNull ''#4ECDC4'' env_ok]\<rparr>)],
      user_info = [(''b1'',
         [(JStr ''alice'', new_info (JStr ''alice'') JNull ''#FF6B6B'' JNull env_ok),
          (JStr ''bob'', new_info (JStr ''bob'') JNull ''#4ECDC4'' JNull env_ok)])]\<rparr>"
proof -
  have c: "assign_color [(JStr ''alice'', new_info (JStr ''alice'') JNull ''#FF6B6B'' JNull env_ok)]
      = ''#4ECDC4''"
    by (simp add: assign_color_def colors_def new_info_def)
  show ?thesis
    using register_user_old_board[of one_user "''b1''" "[(JStr ''alice'', 1)]"
        "[(JStr ''alice'', new_info (JStr ''alice'') JNull ''#FF6B6B'' JNull env_ok)]"
        "\<lparr>objects = [], background = ''#FFFFFF'',
          users = [new_entry (JStr ''alice'') JNull ''#FF6B6B'' env_ok]\<rparr>"
        "join_fields ''bob''" env_ok "JStr ''bob''" JNull JNull 2]
    by (simp add: two_users_def one_user_eq join_fields_identity c put_board_def new_entry_def)
qed


lemma members_one_user: "members one_user ''b1'' = [(JStr ''alice'', 1)]"
  by (simp add: one_user_eq members_def)

lemma board_objects_one_user: "board_objects one_user ''b1'' = Some []"
  by (simp add: one_user_eq board_objects_def)








subsection \<open>Which events raise\<close>


subsection \<open>Appending objects\<close>

lemma set_objects_comp:
  "set_objects (set_objects s b f) b g = set_objects s b (\<lambda>xs. g (f xs))"
  by (simp add: set_objects_def map_of_update_if split: option.splits)

lemma set_objects_same:
  assumes "\<And>xs. board_objects s b = Some xs \<Longrightarrow> f xs = xs"
  shows "set_objects s b f = s"
proof (cases "map_of (board_data s) b")
  case None
  then show ?thesis by (simp add: set_objects_def)
next
  case (Some bd)
  then have "f (objects bd) = objects bd"
    using assms by (simp add: board_objects_def)
  then show ?thesis
    using Some by (simp add: set_objects_def update_triv)
qed

lemma on_add_object_all_ok:
  assumes "list_all (\<lambda>(u, w). send_ok e w) (members s b)"
    and "map_of d ''type'' = Some (JStr ''add_object'')"
    and "map_of d ''object'' = Some (JObj objd)"
  shows "handle_event s ws b u n (JObj d) e =
           \<lparr>state = set_objects s b (\<lambda>xs. xs @ [JObj (stamp_object objd e)]),
            sent = map (\<lambda>(u, w). (w, ObjectAdded (JObj (stamp_object objd e)))) (members s b),
            bound_user_id = u, raised = None\<rparr>"
  using assms
  by (simp add: handle_event_def dispatch_def on_add_object_def Let_def broadcast_all_ok
      after_broadcast_def)

lemma active_loop_adds:
  assumes "list_all (\<lambda>(u, w). send_ok e w) (members s b)"
    and "map_of d ''type'' = Some (JStr ''add_object'')"
    and "map_of d ''object'' = Some (JObj objd)"
  shows "state (active_loop s ws b u n (replicate k (Json (JObj d), e))) =
           set_objects s b (\<lambda>xs. xs @ replicate k (JObj (stamp_object objd e)))"
  using assms(1)
proof (induction k arbitrary: s)
  case 0
  show ?case by (simp add: set_objects_same)
next
  case (Suc k)
  let ?s1 = "set_objects s b (\<lambda>xs. xs @ [JObj (stamp_object objd e)])"
  have h: "handle_event s ws b u n (JObj d) e =
           \<lparr>state = ?s1,
            sent = map (\<lambda>(u, w). (w, ObjectAdded (JObj (stamp_object objd e)))) (members s b),
            bound_user_id = u, raised = None\<rparr>"
    by (rule on_add_object_all_ok[OF Suc.prems assms(2,3)])
  have "list_all (\<lambda>(u, w). send_ok e w) (members ?s1 b)"
    using Suc.prems by simp
  from Suc.IH[OF this]
  have "state (active_loop ?s1 ws b u n (replicate k (Json (JObj d), e))) =
      set_objects s b (\<lambda>xs. xs @ replicate (Suc k) (JObj (stamp_object objd e)))"
    by (simp add: set_objects_comp)
  then show ?case
    using h by (simp add: Let_def)
qed

lemma board_objects_add_object:
  "board_objects (add_object s b obj e) b =
     map_option (\<lambda>xs. drop (length xs + 1 - 1000)
        (xs @ [JObj (AList.update ''timestamp'' (JStr (now e))
                 (AList.update ''id'' (JStr (uuid_a e)) obj))]))
       (board_objects s b)"
  by (simp add: add_object_def board_objects_def Let_def map_of_update_if split: option.splits)

subsection \<open>Replacing an object\<close>







subsection \<open>The teardown\<close>









subsection \<open>Registration and the list of users\<close>


lemma py_eq_unhashable: "hashable a \<Longrightarrow> \<not> hashable b \<Longrightarrow> \<not> py_eq a b"
  by (cases a; cases b) simp_all

lemma count_py_eq:
  assumes "list_all hashable xs" and "distinct (map norm_key xs)"
  shows "length (filter (\<lambda>x. py_eq x u) xs) =
           (if hashable u \<and> norm_key u \<in> set (map norm_key xs) then 1 else 0)"
proof (cases "hashable u")
  case False
  then have "filter (\<lambda>x. py_eq x u) xs = []"
    using assms(1) py_eq_unhashable by (auto simp: filter_empty_conv list_all_iff)
  then show ?thesis using False by simp
next
  case True
  have "filter (\<lambda>x. py_eq x u) xs = filter (\<lambda>x. norm_key x = norm_key u) xs"
    using assms(1) True by (intro filter_cong) (auto simp: list_all_iff py_eq_norm_key)
  moreover have "length (filter (\<lambda>x. norm_key x = norm_key u) xs) =
      (if norm_key u \<in> set (map norm_key xs) then 1 else 0)"
    using assms(2) by (induction xs) (auto simp: filter_empty_conv)
  ultimately show ?thesis using True by simp
qed

lemma list_ex_roster:
  assumes "wf s"
  shows "list_ex (\<lambda>x. py_eq x u) (roster_ids s b) =
           (hashable u \<and> norm_key u \<in> set (map fst (members s b)))"
proof (cases "hashable u")
  case False
  then show ?thesis
    using wf_roster_keys(2)[OF assms, of b] py_eq_unhashable
    by (auto simp: list_ex_iff list_all_iff)
next
  case True
  have "list_ex (\<lambda>x. py_eq x u) (roster_ids s b) =
      (norm_key u \<in> set (map norm_key (roster_ids s b)))"
    using wf_roster_keys(2)[OF assms, of b] True
    by (auto simp: list_ex_iff list_all_iff py_eq_norm_key image_iff) metis
  then show ?thesis using True wf_roster_keys(1)[OF assms, of b] by simp
qed

lemma members_init_board [simp]: "members (init_board s b) b' = members s b'"
  by (simp add: init_board_eq members_put_board) (simp add: members_def)

lemma roster_ids_init_board:
  assumes "wf s"
  shows "roster_ids (init_board s b) b' = roster_ids s b'"
  using wf_absent(1)[OF assms, of b]
  by (auto simp: init_board_eq roster_ids_def map_of_update_if)

lemma infos_of_init_board:
  assumes "wf s"
  shows "infos_of (init_board s b) b' = infos_of s b'"
  using wf_absent(2)[OF assms, of b]
  by (auto simp: init_board_eq infos_of_def map_of_update_if)

lemma register_user_members:
  assumes "wf s"
  shows "members (fst (register_user s ws b data e)) b' =
           (if b' = b \<and> hashable (fst (new_identity data e))
            then AList.update (norm_key (fst (new_identity data e))) ws (members s b)
            else members s b')"
proof -
  obtain u n sid where id: "new_identity data e = (u, n, sid)"
    by (cases "new_identity data e") auto
  show ?thesis
  proof (cases "hashable u")
    case False
    then show ?thesis
      using register_user_unhashable[OF assms id False, of ws b] by (simp add: id)
  next
    case True
    show ?thesis
    proof (cases "map_of (active_connections s) b")
      case None
      then show ?thesis
        using register_user_new_board[OF assms None id True, of ws] True
        by (simp add: id members_put_board) (simp add: members_def)
    next
      case (Some conns)
      from wf_lookup[OF assms Some] obtain infos bd where
        l: "map_of (user_info s) b = Some infos" "map_of (board_data s) b = Some bd"
        by blast
      show ?thesis
        using register_user_old_board[OF Some l id True, of ws] Some True
        by (simp add: id members_put_board) (simp add: members_def)
    qed
  qed
qed

lemma register_user_known_id:
  assumes "wf s" and "list_ex (\<lambda>x. py_eq x (fst (new_identity data e))) (roster_ids s b)"
  shows "board_data (fst (register_user s ws b data e)) = board_data s"
proof -
  obtain u n sid where id: "new_identity data e = (u, n, sid)"
    by (cases "new_identity data e") auto
  have ex: "list_ex (\<lambda>x. py_eq x u) (roster_ids s b)" using assms(2) id by simp
  then have h: "hashable u" using list_ex_roster[OF assms(1)] by simp
  from ex obtain bd where bd: "map_of (board_data s) b = Some bd"
    and u: "list_ex (\<lambda>x. py_eq (entry_id x) u) (users bd)"
    by (cases "map_of (board_data s) b") (auto simp: roster_ids_def list_ex_iff)
  obtain conns where c: "map_of (active_connections s) b = Some conns"
    using wf_present(1)[OF assms(1), of b] bd by auto
  from wf_lookup[OF assms(1) c] obtain infos where
    l: "map_of (user_info s) b = Some infos" by blast
  show ?thesis
    using register_user_old_board[OF c l bd id h, of ws] u bd
    by (simp add: update_triv)
qed

lemma register_user_roster:
  assumes "wf s"
  shows "roster_ids (fst (register_user s ws b data e)) b =
           (if hashable (fst (new_identity data e)) \<and>
               \<not> list_ex (\<lambda>x. py_eq x (fst (new_identity data e))) (roster_ids s b)
            then roster_ids s b @ [fst (new_identity data e)] else roster_ids s b)"
proof -
  obtain u n sid where id: "new_identity data e = (u, n, sid)"
    by (cases "new_identity data e") auto
  show ?thesis
  proof (cases "hashable u")
    case False
    then show ?thesis
      using register_user_unhashable[OF assms id False, of ws b]
      by (simp add: id roster_ids_init_board[OF assms])
  next
    case True
    show ?thesis
    proof (cases "map_of (active_connections s) b")
      case None
      have "roster_ids s b = []"
        using wf_absent(1)[OF assms None] by (simp add: roster_ids_def)
      then show ?thesis
        using register_user_new_board[OF assms None id True, of ws] True
        by (simp add: id roster_ids_def map_of_update_if new_entry_def)
    next
      case (Some conns)
      from wf_lookup[OF assms Some] obtain infos bd where
        l: "map_of (user_info s) b = Some infos" "map_of (board_data s) b = Some bd"
        by blast
      have "list_ex (\<lambda>x. py_eq x u) (roster_ids s b) =
          list_ex (\<lambda>x. py_eq (entry_id x) u) (users bd)"
        using l(2) by (simp add: roster_ids_def list_ex_iff)
      then show ?thesis
        using register_user_old_board[OF Some l id True, of ws] l True
        by (simp add: id roster_ids_def map_of_update_if new_entry_def)
    qed
  qed
qed

lemma wf_distinct_roster:
  assumes "wf s"
  shows "distinct (map norm_key (roster_ids s b))" and "distinct (roster_ids s b)"
proof -
  show d: "distinct (map norm_key (roster_ids s b))"
    using wf_roster_keys(1)[OF assms, of b] wf_distinct_members[OF assms, of b] by simp
  show "distinct (roster_ids s b)"
    using d by (simp add: distinct_map)
qed

subsection \<open>Colours\<close>

lemma distinct_colors: "distinct colors" and length_colors: "length colors = 10"
  by (simp_all add: colors_def)

lemma case_filter_find:
  "(case filter P xs of c # _ \<Rightarrow> c | [] \<Rightarrow> d) =
   (case List.find P xs of Some c \<Rightarrow> c | None \<Rightarrow> d)"
  by (induction xs) auto

lemma assign_color_eq:
  "assign_color infos =
     (case List.find (\<lambda>c. c \<notin> set (map (info_color \<circ> snd) infos)) colors of
        Some c \<Rightarrow> c
      | None \<Rightarrow> colors ! (length infos mod 10))"
  by (simp add: assign_color_def Let_def length_colors case_filter_find
      cong: option.case_cong)

lemma unused_color_exists:
  assumes "length used < 10"
  shows "list_ex (\<lambda>c. c \<notin> set used) colors"
proof (rule ccontr)
  assume "\<not> list_ex (\<lambda>c. c \<notin> set used) colors"
  then have "set colors \<subseteq> set used" by (auto simp: list_ex_iff)
  then have "card (set colors) \<le> card (set used)" by (simp add: card_mono)
  moreover have "card (set colors) = 10"
    using distinct_card[OF distinct_colors] length_colors by simp
  moreover have "card (set used) \<le> length used" by (rule card_length)
  ultimately show False using assms by simp
qed

lemma find_unused:
  assumes "list_ex P xs"
  obtains c where "List.find P xs = Some c" and "P c" and "c \<in> set xs"
proof -
  have "\<exists>c. List.find P xs = Some c \<and> P c \<and> c \<in> set xs"
    using assms by (induction xs) auto
  then show thesis using that by blast
qed

lemma distinct_map_update:
  assumes "distinct (map f al)" and "f (k, v) \<notin> f ` set al"
    and "\<And>p. f p = g (snd p)"
  shows "distinct (map f (AList.update k v al))"
  using assms(1,2)
proof (induction al)
  case Nil
  then show ?case by simp
next
  case (Cons p al)
  have sub: "f ` set (AList.update k v al) \<subseteq> insert (f (k, v)) (f ` set al)"
  proof (induction al)
    case Nil
    then show ?case by simp
  next
    case (Cons q al)
    then show ?case by auto
  qed
  show ?case
  proof (cases "fst p = k")
    case True
    then show ?thesis using Cons.prems by auto
  next
    case False
    have "distinct (map f (AList.update k v al))"
      using Cons by simp
    moreover have "f p \<notin> f ` set (AList.update k v al)"
      using sub Cons.prems by auto
    ultimately show ?thesis using False by simp
  qed
qed

lemma register_user_infos:
  assumes "wf s"
  shows "infos_of (fst (register_user s ws b data e)) b =
           (if hashable (fst (new_identity data e))
            then AList.update (norm_key (fst (new_identity data e)))
                   (new_info (fst (new_identity data e)) (fst (snd (new_identity data e)))
                      (assign_color (infos_of s b)) (snd (snd (new_identity data e))) e)
                   (infos_of s b)
            else infos_of s b)"
    and "snd (register_user s ws b data e) =
           (if hashable (fst (new_identity data e))
            then Inr (fst (new_identity data e), fst (snd (new_identity data e)),
                      assign_color (infos_of s b), snd (snd (new_identity data e)))
            else Inl TypeError)"
proof -
  obtain u n sid where id: "new_identity data e = (u, n, sid)"
    by (cases "new_identity data e") auto
  have "infos_of (fst (register_user s ws b data e)) b =
           (if hashable u
            then AList.update (norm_key u) (new_info u n (assign_color (infos_of s b)) sid e)
                   (infos_of s b)
            else infos_of s b) \<and>
        snd (register_user s ws b data e) =
           (if hashable u then Inr (u, n, assign_color (infos_of s b), sid) else Inl TypeError)"
  proof (cases "hashable u")
    case False
    then show ?thesis
      using register_user_unhashable[OF assms id False, of ws b]
      by (simp add: infos_of_init_board[OF assms])
  next
    case True
    show ?thesis
    proof (cases "map_of (active_connections s) b")
      case None
      then show ?thesis
        using register_user_new_board[OF assms None id True, of ws] wf_absent(2)[OF assms None]
          True
        by (simp add: infos_of_def map_of_update_if)
    next
      case (Some conns)
      from wf_lookup[OF assms Some] obtain infos bd where
        l: "map_of (user_info s) b = Some infos" "map_of (board_data s) b = Some bd"
        by blast
      show ?thesis
        using register_user_old_board[OF Some l id True, of ws] l True
        by (simp add: infos_of_def map_of_update_if)
    qed
  qed
  then show "infos_of (fst (register_user s ws b data e)) b =
           (if hashable (fst (new_identity data e))
            then AList.update (norm_key (fst (new_identity data e)))
                   (new_info (fst (new_identity data e)) (fst (snd (new_identity data e)))
                      (assign_color (infos_of s b)) (snd (snd (new_identity data e))) e)
                   (infos_of s b)
            else infos_of s b)"
    and "snd (register_user s ws b data e) =
           (if hashable (fst (new_identity data e))
            then Inr (fst (new_identity data e), fst (snd (new_identity data e)),
                      assign_color (infos_of s b), snd (snd (new_identity data e)))
            else Inl TypeError)"
    by (simp_all add: id)
qed

lemma wf_join_all: "wf s \<Longrightarrow> wf (join_all s b ps)"
proof (induction ps arbitrary: s)
  case Nil
  then show ?case by simp
next
  case (Cons p ps)
  obtain u w where p: "p = (u, w)" by (cases p)
  show ?case
    using Cons.IH[OF register_user_wf(1)[OF Cons.prems, of w b "join_fields u" env_ok]] p
    by simp
qed

lemma wf_ten_users: "wf ten_users"
  unfolding ten_users_def by (rule wf_join_all[OF wf_init])

lemma infos_of_join:
  assumes "wf s" and "u \<noteq> []"
  shows "infos_of (fst (register_user s w b (join_fields u) env_ok)) b =
           AList.update (JStr u)
             (new_info (JStr u) JNull (assign_color (infos_of s b)) JNull env_ok)
             (infos_of s b)"
  using register_user_infos(1)[OF assms(1), of w b "join_fields u" env_ok]
  by (simp add: join_fields_identity[OF assms(2)])

lemma infos_of_join_all:
  assumes "wf s" and "list_all (\<lambda>(u, w). u \<noteq> []) ps"
  shows "infos_of (join_all s b ps) b =
           foldl (\<lambda>infos (u, w).
                    AList.update (JStr u)
                      (new_info (JStr u) JNull (assign_color infos) JNull env_ok) infos)
             (infos_of s b) ps"
  using assms
proof (induction ps arbitrary: s)
  case Nil
  then show ?case by simp
next
  case (Cons p ps)
  obtain u w where p: "p = (u, w)" by (cases p)
  have u: "u \<noteq> []" and rest: "list_all (\<lambda>(u, w). u \<noteq> []) ps"
    using Cons.prems(2) p by simp_all
  show ?case
    using Cons.IH[OF register_user_wf(1)[OF Cons.prems(1), of w b "join_fields u" env_ok] rest]
      infos_of_join[OF Cons.prems(1) u, of w b] p
    by simp
qed

lemma infos_of_ten_users:
  "map (\<lambda>(u, i). (u, info_color i)) (infos_of ten_users ''b1'') =
     [(JStr ''u0'', ''#FF6B6B''), (JStr ''u1'', ''#4ECDC4''), (JStr ''u2'', ''#FFD166''),
      (JStr ''u3'', ''#06D6A0''), (JStr ''u4'', ''#118AB2''), (JStr ''u5'', ''#EF476F''),
      (JStr ''u6'', ''#7209B7''), (JStr ''u7'', ''#3A86FF''), (JStr ''u8'', ''#FB5607''),
      (JStr ''u9'', ''#8338EC'')]"
proof -
  have 0: "infos_of init_manager ''b1'' = []"
    by (simp add: infos_of_def init_manager_def)
  have 1: "infos_of ten_users ''b1'' = foldl (\<lambda>infos (u, w).
                    AList.update (JStr u)
                      (new_info (JStr u) JNull (assign_color infos) JNull env_ok) infos)
             [] [(''u0'', 0::nat), (''u1'', 1), (''u2'', 2), (''u3'', 3), (''u4'', 4),
      (''u5'', 5), (''u6'', 6), (''u7'', 7), (''u8'', 8), (''u9'', 9)]"
    unfolding ten_users_def
    by (simp add: infos_of_join_all[OF wf_init] 0 del: join_all.simps)
  have 2: "map (\<lambda>(u, i). (u, info_color i)) (foldl (\<lambda>infos (u, w).
                    AList.update (JStr u)
                      (new_info (JStr u) JNull (assign_color infos) JNull env_ok) infos)
             [] [(''u0'', 0::nat), (''u1'', 1), (''u2'', 2), (''u3'', 3), (''u4'', 4),
      (''u5'', 5), (''u6'', 6), (''u7'', 7), (''u8'', 8), (''u9'', 9)]) =
     [(JStr ''u0'', ''#FF6B6B''), (JStr ''u1'', ''#4ECDC4''), (JStr ''u2'', ''#FFD166''),
      (JStr ''u3'', ''#06D6A0''), (JStr ''u4'', ''#118AB2''), (JStr ''u5'', ''#EF476F''),
      (JStr ''u6'', ''#7209B7''), (JStr ''u7'', ''#3A86FF''), (JStr ''u8'', ''#FB5607''),
      (JStr ''u9'', ''#8338EC'')]"
    by code_simp
  show ?thesis using 1 2 by simp
qed

lemma color_pairs_update:
  "map (\<lambda>(u, i). (u, info_color i)) (AList.update k v al) =
     AList.update k (info_color v) (map (\<lambda>(u, i). (u, info_color i)) al)"
  by (induction al) auto

lemma present_colors_pairs:
  "present_colors s b = map snd (map (\<lambda>(u, i). (u, info_color i)) (infos_of s b))"
  by (simp add: present_colors_def case_prod_unfold comp_def)

lemma present_colors_ten_users: "present_colors ten_users ''b1'' = colors"
  by (simp add: present_colors_pairs infos_of_ten_users colors_def)

lemma length_infos_ten_users: "length (infos_of ten_users ''b1'') = 10"
  using arg_cong[OF infos_of_ten_users, of length] by simp

lemma assign_color_ten_users: "assign_color (infos_of ten_users ''b1'') = ''#FF6B6B''"
proof -
  have "map (info_color \<circ> snd) (infos_of ten_users ''b1'') = colors"
    using present_colors_ten_users by (simp add: present_colors_def)
  then show ?thesis
    by (simp add: assign_color_def length_infos_ten_users) (simp add: colors_def)
qed

lemma present_colors_rejoin:
  "present_colors (fst (register_user ten_users 10 ''b1'' (join_fields ''u5'') env_ok)) ''b1'' =
     [''#FF6B6B'', ''#4ECDC4'', ''#FFD166'', ''#06D6A0'', ''#118AB2'',
      ''#FF6B6B'', ''#7209B7'', ''#3A86FF'', ''#FB5607'', ''#8338EC'']"
proof -
  have "infos_of (fst (register_user ten_users 10 ''b1'' (join_fields ''u5'') env_ok)) ''b1'' =
      AList.update (JStr ''u5'') (new_info (JStr ''u5'') JNull ''#FF6B6B'' JNull env_ok)
        (infos_of ten_users ''b1'')"
    using infos_of_join[OF wf_ten_users, of "''u5''" 10 "''b1''"]
    by (simp add: assign_color_ten_users)
  then show ?thesis
    by (simp add: present_colors_pairs color_pairs_update infos_of_ten_users new_info_def)
qed

lemma present_colors_one_user: "present_colors one_user ''b1'' = [''#FF6B6B'']"
  by (simp add: present_colors_def infos_of_def one_user_eq new_info_def)

subsection \<open>What a broadcast leaves in the list of users\<close>

lemma roster_ids_put_board:
  "roster_ids (put_board s b conns bd infos) b' =
     (if b' = b then map entry_id (users bd) else roster_ids s b')"
  by (simp add: roster_ids_def map_of_update_if)






subsection \<open>A whole session with one \<^verbatim>\<open>update_user\<close> event\<close>






section \<open>The claims\<close>

subsection \<open>C1: who receives a broadcast\<close>

text \<open>
  C1. In the code every broadcast reaches every connection of the board: \<open>broadcast\<close>
  does not read \<^verbatim>\<open>exclude_user_id\<close>. With \<open>alice\<close> (socket 1) and \<open>bob\<close> (socket 2) on
  the board, the \<^verbatim>\<open>cursor_moved\<close> and the \<^verbatim>\<open>user_updated\<close> messages caused by events of
  \<open>alice\<close> are sent to socket 1 as well.
\<close>

theorem exclusion_is_not_applied:
  "sent (handle_event two_users 1 ''b1'' (JStr ''alice'') JNull move_cursor env_ok) =
     [(1, CursorMoved (JStr ''alice'') JNull ''#FF6B6B'' (JNum 5)),
      (2, CursorMoved (JStr ''alice'') JNull ''#FF6B6B'' (JNum 5))] \<and>
   sent (handle_event two_users 1 ''b1'' (JStr ''alice'') JNull rename_alice env_ok) =
     [(1, UserUpdated (JStr ''alice'') (JStr ''Al'') (JStr ''Alice'')),
      (2, UserUpdated (JStr ''alice'') (JStr ''Al'') (JStr ''Alice''))] \<and>
   broadcast two_users ''b1'' Pong (JStr ''alice'') (\<lambda>w. True) =
     broadcast two_users ''b1'' Pong JNull (\<lambda>w. True)"
  by (simp add: two_users_eq handle_event_def dispatch_def on_cursor_move_def
      on_update_user_def rename_user_def set_name_def rename_roster_def set_cursor_def
      lookup_info_def broadcast_def after_broadcast_def move_cursor_def rename_alice_def
      dict_get_def env_ok_def Let_def new_info_def new_entry_def)

subsection \<open>C2: the length of the object list\<close>

text \<open>
  C2. The handler of the \<^verbatim>\<open>add_object\<close> event appends to the list without a bound:
  after 1001 such events on her board, the list of \<open>alice\<close> holds 1001 objects. The cap
  is in \<^verbatim>\<open>ConnectionManager.add_object\<close>, which the handler does not call: applied to a
  list of 1000 objects it leaves 1000.
\<close>

theorem object_log_is_not_capped:
  "map_option length (board_objects (state (active_loop one_user 1 ''b1'' (JStr ''alice'') JNull
       (replicate 1001 (Json add_rect, env_ok)))) ''b1'') = Some 1001 \<and>
   map_option length (board_objects (add_object (state (active_loop one_user 1 ''b1''
       (JStr ''alice'') JNull (replicate 1000 (Json add_rect, env_ok)))) ''b1'' rect env_ok)
     ''b1'') = Some 1000"
proof -
  have ok: "list_all (\<lambda>(u, w). send_ok env_ok w) (members one_user ''b1'')"
    by (simp add: members_one_user env_ok_def)
  have "board_objects (state (active_loop one_user 1 ''b1'' (JStr ''alice'') JNull
       (replicate k (Json add_rect, env_ok)))) ''b1'' =
       Some (replicate k (JObj (stamp_object rect env_ok)))" for k
    unfolding add_rect_def
    by (subst active_loop_adds[OF ok, where objd = rect])
      (simp_all add: board_objects_set_objects board_objects_one_user)
  then show ?thesis
    by (simp add: board_objects_add_object)
qed

subsection \<open>C3: an event that lacks a required field\<close>




subsection \<open>C4: modifying an object that is not in the list\<close>




subsection \<open>C5: a board exists exactly while it has a connection\<close>

text \<open>
  C5. The code does not keep a board in the registry exactly while it has a connected
  session. Three runs from the same code show it.

  \<^item> A connection whose first message is \<^verbatim>\<open>{"type": "user_join", "userId": [1]}\<close>, on
    the empty manager: lines 49-56 create the board \<open>b1\<close>, line 66 raises \<^verbatim>\<open>TypeError\<close>
    on the list, the outer handler closes the connection. The board stays in the three
    dictionaries with no connection, no user record and no user.
  \<^item> A connection that joins as \<open>alice\<close> while the send of the \<^verbatim>\<open>init\<close> message fails: the
    exception of line 165 is raised before the inner \<^verbatim>\<open>try\<close>, so no teardown runs; the
    connection has ended and its board and its entry stay.
  \<^item> With \<open>alice\<close> on socket 1 in her message loop, a second connection on socket 2
    joins with the id \<open>alice\<close> and leaves: its teardown removes the entry and, as this was
    the only entry, the board, while the session on socket 1 is still open.
\<close>

theorem board_without_connection:
  "websocket_endpoint init_manager 1 ''b1'' [(Json (JObj join_with_list), env_ok)] env_ok =
     \<lparr>final =
        \<lparr>active_connections = [(''b1'', [])],
         board_data = [(''b1'', \<lparr>objects = [], background = ''#FFFFFF'', users = []\<rparr>)],
         user_info = [(''b1'', [])]\<rparr>,
      delivered = [], closed_on = Some TypeError\<rparr> \<and>
   has_key ''b1'' (board_data (final (websocket_endpoint init_manager 1 ''b1''
     [(Json (JObj join_with_list), env_ok)] env_ok))) \<and>
   members (final (websocket_endpoint init_manager 1 ''b1''
     [(Json (JObj join_with_list), env_ok)] env_ok)) ''b1'' = [] \<and>
   websocket_endpoint init_manager 1 ''b1'' [(Json (join_as ''alice''), env_dead)] env_ok =
     \<lparr>final = one_user, delivered = [], closed_on = Some SendFailed\<rparr> \<and>
   members one_user ''b1'' = [(JStr ''alice'', 1)] \<and>
   final (websocket_endpoint one_user 2 ''b1'' [(Json (join_as ''alice''), env_ok)] env_ok) =
     init_manager \<and>
   \<not> has_key ''b1'' (board_data init_manager)"
proof -
  have 1: "websocket_endpoint init_manager 1 ''b1'' [(Json (JObj join_with_list), env_ok)] env_ok =
     \<lparr>final =
        \<lparr>active_connections = [(''b1'', [])],
         board_data = [(''b1'', \<lparr>objects = [], background = ''#FFFFFF'', users = []\<rparr>)],
         user_info = [(''b1'', [])]\<rparr>,
      delivered = [], closed_on = Some TypeError\<rparr>"
    by (simp add: websocket_endpoint_def join_session_def register_user_def init_board_def
        new_identity_def has_key_def dict_get_def init_manager_def join_with_list_def Let_def)
  have 2: "websocket_endpoint init_manager 1 ''b1'' [(Json (join_as ''alice''), env_dead)] env_ok =
     \<lparr>final = one_user, delivered = [], closed_on = Some SendFailed\<rparr>"
    by (simp add: websocket_endpoint_def join_session_def register_user_def init_board_def
        new_identity_def assign_color_def colors_def send_to_user_def has_key_def dict_get_def
        init_manager_def join_as_def join_fields_def env_ok_def env_dead_def one_user_def
        Let_def new_info_def new_entry_def)
  have 3: "final (websocket_endpoint one_user 2 ''b1'' [(Json (join_as ''alice''), env_ok)]
      env_ok) = init_manager"
    unfolding one_user_eq
    by (simp add: websocket_endpoint_def join_session_def run_session_def register_user_def
        init_board_def new_identity_def assign_color_def colors_def send_to_user_def
        broadcast_def teardown_def disconnect_def raise_def py_or_def has_key_def dict_get_def
        init_manager_def join_as_def join_fields_def env_ok_def Let_def new_info_def
        new_entry_def)
  show ?thesis
    unfolding 1 using 2 3 members_one_user
    by (simp add: has_key_def members_def init_manager_def)
qed

subsection \<open>C6: the colour of a joining user\<close>

text \<open>
  C6 (as amended). The colour given to a joining user is a function of the user records
  present on the board. When some colour of the palette of 10 is not in use it is the
  first such colour in the order of the palette, which no present user has; so a join
  to a board that holds fewer than 10 users with pairwise distinct colours leaves the
  colours pairwise distinct. When all 10 are in use it is the colour at the index
  (number of present users mod 10); with 10 users present this is the first colour of the
  palette. The registration returns this colour, unless the user id is a list or a
  dictionary: then it raises \<^verbatim>\<open>TypeError\<close> and no user record is added.
\<close>

theorem color_assignment:
  assumes "wf s" and "used = present_colors s board_id"
    and "c = assign_color (infos_of s board_id)"
  shows
    "snd (register_user s websocket board_id data e) =
       (if hashable (fst (new_identity data e))
        then Inr (fst (new_identity data e), fst (snd (new_identity data e)), c,
                  snd (snd (new_identity data e)))
        else Inl TypeError) \<and>
     (if list_ex (\<lambda>x. x \<notin> set used) colors
      then List.find (\<lambda>x. x \<notin> set used) colors = Some c \<and> c \<notin> set used
      else c = colors ! (length used mod 10)) \<and>
     (length used < 10 \<longrightarrow> c \<notin> set used) \<and>
     (length used < 10 \<and> distinct used \<longrightarrow>
        distinct (present_colors (fst (register_user s websocket board_id data e)) board_id)) \<and>
     (length used = 10 \<and> \<not> list_ex (\<lambda>x. x \<notin> set used) colors \<longrightarrow> c = ''#FF6B6B'')"
proof -
  let ?infos = "infos_of s board_id"
  have used: "used = map (info_color \<circ> snd) ?infos"
    using assms(2) by (simp add: present_colors_def)
  have fnd: "List.find (\<lambda>x. x \<notin> set used) colors = Some c \<and> c \<notin> set used"
    if "list_ex (\<lambda>x. x \<notin> set used) colors"
  proof -
    from find_unused[OF that] obtain c' where
      c': "List.find (\<lambda>x. x \<notin> set used) colors = Some c'" "c' \<notin> set used" by blast
    then have "c = c'" using assms(3) used by (simp add: assign_color_eq)
    then show ?thesis using c' by simp
  qed
  have nofnd: "c = colors ! (length used mod 10)"
    if "\<not> list_ex (\<lambda>x. x \<notin> set used) colors"
  proof -
    have "List.find (\<lambda>x. x \<notin> set used) colors = None"
      using that by (simp add: find_None_iff list_ex_iff)
    then show ?thesis using assms(3) used by (simp add: assign_color_eq)
  qed
  have fresh: "c \<notin> set used" if "length used < 10"
    using fnd[OF unused_color_exists[OF that]] by simp
  have keep: "distinct (present_colors (fst (register_user s websocket board_id data e))
      board_id)" if "length used < 10" "distinct used"
  proof (cases "hashable (fst (new_identity data e))")
    case False
    then show ?thesis
      using register_user_infos(1)[OF assms(1), of websocket board_id data e] that(2) used
      by (simp add: present_colors_def)
  next
    case True
    let ?u = "norm_key (fst (new_identity data e))"
    let ?i = "new_info (fst (new_identity data e)) (fst (snd (new_identity data e))) c
        (snd (snd (new_identity data e))) e"
    have "distinct (map (info_color \<circ> snd) (AList.update ?u ?i ?infos))"
    proof (rule distinct_map_update)
      show "distinct (map (info_color \<circ> snd) ?infos)" using that(2) used by simp
      show "(info_color \<circ> snd) (?u, ?i) \<notin> (info_color \<circ> snd) ` set ?infos"
        using fresh[OF that(1)] used by (simp add: new_info_def)
      show "\<And>p. (info_color \<circ> snd) p = info_color (snd p)" by simp
    qed
    then show ?thesis
      using register_user_infos(1)[OF assms(1), of websocket board_id data e] assms(3) True
      by (simp add: present_colors_def)
  qed
  have first: "c = ''#FF6B6B''"
    if "length used = 10" "\<not> list_ex (\<lambda>x. x \<notin> set used) colors"
    using nofnd[OF that(2)] that(1) by (simp add: colors_def)
  show ?thesis
    using register_user_infos(2)[OF assms(1), of websocket board_id data e] assms(3)
      fnd nofnd fresh keep first
    by simp
qed

theorem color_assignment_witness:
  "wf one_user \<and> wf ten_users \<and>
   present_colors one_user ''b1'' = [''#FF6B6B''] \<and>
   present_colors ten_users ''b1'' = colors \<and>
   snd (register_user one_user 2 ''b1'' (join_fields ''bob'') env_ok) =
     Inr (JStr ''bob'', JNull, ''#4ECDC4'', JNull) \<and>
   distinct (present_colors (fst (register_user one_user 2 ''b1'' (join_fields ''bob'') env_ok))
     ''b1'') \<and>
   snd (register_user ten_users 10 ''b1'' (join_fields ''u10'') env_ok) =
     Inr (JStr ''u10'', JNull, ''#FF6B6B'', JNull)"
proof -
  note one = color_assignment[OF wf_one_user present_colors_one_user[symmetric] refl,
      where websocket = 2 and data = "join_fields ''bob''" and e = env_ok]
  note ten = color_assignment[OF wf_ten_users present_colors_ten_users[symmetric] refl,
      where websocket = 10 and data = "join_fields ''u10''" and e = env_ok]
  have c1: "assign_color (infos_of one_user ''b1'') = ''#4ECDC4''"
    using one[THEN conjunct2, THEN conjunct1] by (simp add: colors_def)
  have r1: "snd (register_user one_user 2 ''b1'' (join_fields ''bob'') env_ok) =
     Inr (JStr ''bob'', JNull, ''#4ECDC4'', JNull)"
    using one[THEN conjunct1] c1 by (simp add: join_fields_identity)
  have d1: "distinct (present_colors (fst (register_user one_user 2 ''b1'' (join_fields ''bob'')
      env_ok)) ''b1'')"
    using one[THEN conjunct2, THEN conjunct2, THEN conjunct2, THEN conjunct1] by simp
  have c10: "assign_color (infos_of ten_users ''b1'') = ''#FF6B6B''"
    using ten[THEN conjunct2, THEN conjunct2, THEN conjunct2, THEN conjunct2]
    by (simp add: colors_def)
  have r10: "snd (register_user ten_users 10 ''b1'' (join_fields ''u10'') env_ok) =
     Inr (JStr ''u10'', JNull, ''#FF6B6B'', JNull)"
    using ten[THEN conjunct1] c10 by (simp add: join_fields_identity)
  show ?thesis
    using wf_one_user wf_ten_users present_colors_one_user present_colors_ten_users r1 d1 r10
    by (intro conjI)
qed

text \<open>
  C6 as it is stated fails: ten users hold the ten colours of the palette; \<open>u5\<close> joins
  again with her id. No colour is unused, so she is given the colour at index 10 mod 10,
  the one \<open>u0\<close> has: the board holds 10 users and two of them have the same colour.
\<close>

theorem color_assignment_counterexample:
  "length (present_colors ten_users ''b1'') = 10 \<and>
   distinct (present_colors ten_users ''b1'') \<and>
   length (present_colors (fst (register_user ten_users 10 ''b1'' (join_fields ''u5'') env_ok))
     ''b1'') = 10 \<and>
   \<not> distinct (present_colors (fst (register_user ten_users 10 ''b1'' (join_fields ''u5'') env_ok))
     ''b1'')"
  by (simp add: present_colors_rejoin present_colors_ten_users colors_def)

subsection \<open>C7: joining twice does not duplicate the entry\<close>

text \<open>
  C7. Registering a user whose id is already in the list \<^verbatim>\<open>users\<close> of the board (an entry
  has an id that is \<^verbatim>\<open>==\<close> to it) leaves that list, and the whole of \<^verbatim>\<open>board_data\<close>, as it
  was: no second entry is appended. A new id is appended at the end, unless it is a
  list or a dictionary: then the registration raises \<^verbatim>\<open>TypeError\<close> and nothing is
  appended. After any registration the ids of the list of every board are pairwise
  distinct, also as dictionary keys, an id that was registered occurs in the list of its
  board exactly once, and the same distinctness holds after a whole connection has run.
\<close>

theorem join_is_idempotent_on_roster:
  assumes "wf s"
  shows
    "(if list_ex (\<lambda>x. py_eq x (fst (new_identity data e))) (roster_ids s board_id)
      then board_data (fst (register_user s websocket board_id data e)) = board_data s
      else if hashable (fst (new_identity data e))
      then roster_ids (fst (register_user s websocket board_id data e)) board_id =
             roster_ids s board_id @ [fst (new_identity data e)]
      else roster_ids (fst (register_user s websocket board_id data e)) board_id =
             roster_ids s board_id \<and>
           snd (register_user s websocket board_id data e) = Inl TypeError) \<and>
     distinct (roster_ids (fst (register_user s websocket board_id data e)) b) \<and>
     distinct (map norm_key (roster_ids (fst (register_user s websocket board_id data e)) b)) \<and>
     length (filter (\<lambda>x. py_eq x (fst (new_identity data e)))
       (roster_ids (fst (register_user s websocket board_id data e)) board_id)) =
       (if hashable (fst (new_identity data e)) then 1 else 0) \<and>
     distinct (roster_ids s b) \<and>
     distinct (map norm_key (roster_ids s b)) \<and>
     distinct (roster_ids (final (websocket_endpoint s websocket board_id inputs fin)) b) \<and>
     distinct (map norm_key
       (roster_ids (final (websocket_endpoint s websocket board_id inputs fin)) b))"
proof -
  let ?s' = "fst (register_user s websocket board_id data e)"
  let ?u = "fst (new_identity data e)"
  have w': "wf ?s'" by (rule register_user_wf(1)[OF assms])
  note d = wf_distinct_roster
  have r: "roster_ids ?s' board_id =
      (if hashable ?u \<and> \<not> list_ex (\<lambda>x. py_eq x ?u) (roster_ids s board_id)
       then roster_ids s board_id @ [?u] else roster_ids s board_id)"
    by (rule register_user_roster[OF assms])
  have k: "map norm_key (roster_ids ?s' board_id) =
      map fst (if hashable ?u then AList.update (norm_key ?u) websocket (members s board_id)
               else members s board_id)"
    using wf_roster_keys(1)[OF w', of board_id]
      register_user_members[OF assms, of websocket board_id data e board_id]
    by simp
  have "hashable ?u \<Longrightarrow> norm_key ?u \<in> set (map norm_key (roster_ids ?s' board_id))"
    unfolding k by (simp add: update_keys)
  then have one: "length (filter (\<lambda>x. py_eq x ?u) (roster_ids ?s' board_id)) =
      (if hashable ?u then 1 else 0)"
    using count_py_eq[OF wf_roster_keys(2)[OF w', of board_id] d(1)[OF w', of board_id], of ?u]
    by simp
  have e: "snd (register_user s websocket board_id data e) = Inl TypeError"
    if "\<not> hashable ?u"
    using register_user_wf(3)[OF assms that, of websocket board_id] by simp
  show ?thesis
    using register_user_known_id[OF assms, of data e board_id websocket] r one e
      d[OF w', of b] d[OF assms, of b]
      d[OF wf_websocket_endpoint[OF assms, of websocket board_id inputs fin], of b]
    by simp
qed

theorem join_is_idempotent_on_roster_witness:
  "wf one_user \<and> roster_ids one_user ''b1'' = [JStr ''alice''] \<and>
   board_data (fst (register_user one_user 2 ''b1'' (join_fields ''alice'') env_ok)) =
     board_data one_user \<and>
   length (filter (\<lambda>x. py_eq x (JStr ''alice''))
     (roster_ids (fst (register_user one_user 2 ''b1'' (join_fields ''alice'') env_ok)) ''b1''))
     = 1 \<and>
   roster_ids (fst (register_user one_user 2 ''b1'' (join_fields ''bob'') env_ok)) ''b1'' =
     [JStr ''alice'', JStr ''bob''] \<and>
   roster_ids (fst (register_user one_user 2 ''b1'' join_with_list env_ok)) ''b1'' =
     [JStr ''alice'']"
proof -
  have r: "roster_ids one_user ''b1'' = [JStr ''alice'']"
    by (simp add: one_user_eq roster_ids_def new_entry_def)
  have l: "new_identity join_with_list env_ok = (JArr [JNum 1], JNull, JNull)"
    by (simp add: new_identity_def join_with_list_def dict_get_def)
  note a = join_is_idempotent_on_roster[OF wf_one_user,
        where websocket = 2 and data = "join_fields ''alice''" and e = env_ok
          and board_id = "''b1''"]
  note b = join_is_idempotent_on_roster[OF wf_one_user,
        where websocket = 2 and data = "join_fields ''bob''" and e = env_ok
          and board_id = "''b1''"]
  note c = join_is_idempotent_on_roster[OF wf_one_user,
        where websocket = 2 and data = join_with_list and e = env_ok and board_id = "''b1''"]
  have 1: "board_data (fst (register_user one_user 2 ''b1'' (join_fields ''alice'') env_ok)) =
     board_data one_user"
    using a[THEN conjunct1] r by (simp add: join_fields_identity)
  have 2: "length (filter (\<lambda>x. py_eq x (JStr ''alice''))
     (roster_ids (fst (register_user one_user 2 ''b1'' (join_fields ''alice'') env_ok)) ''b1''))
     = 1"
    using a[THEN conjunct2, THEN conjunct2, THEN conjunct2, THEN conjunct1]
    by (simp add: join_fields_identity)
  have 3: "roster_ids (fst (register_user one_user 2 ''b1'' (join_fields ''bob'') env_ok)) ''b1'' =
     [JStr ''alice'', JStr ''bob'']"
    using b[THEN conjunct1] r by (simp add: join_fields_identity)
  have 4: "roster_ids (fst (register_user one_user 2 ''b1'' join_with_list env_ok)) ''b1'' =
     [JStr ''alice'']"
    using c[THEN conjunct1] r by (simp add: l)
  show ?thesis
    using wf_one_user r 1 2 3 4 by (intro conjI)
qed

subsection \<open>C8: a failed send does not stop a broadcast\<close>



subsection \<open>C9: a first message that is not a join\<close>

text \<open>
  C9. If the first message received on a new connection is not a \<^verbatim>\<open>user_join\<close> event
  (it is a dictionary whose \<^verbatim>\<open>type\<close> is another value or is missing, it is a JSON value
  that is not a dictionary, or the text is not JSON), the connection ends at once: the
  manager is left as it was (no identity, no board created or changed), nothing is sent
  (no \<^verbatim>\<open>init\<close> snapshot, no \<^verbatim>\<open>user_joined\<close>, no \<^verbatim>\<open>user_left\<close>) and the messages that follow
  are not read. The outer handler calls \<^verbatim>\<open>close()\<close> when the type is missing, the value is
  not a dictionary or the text is not JSON; otherwise the coroutine just returns.
\<close>

theorem first_message_not_join:
  assumes "\<not> is_join first"
  shows "websocket_endpoint s websocket board_id ((first, e) # rest) fin =
           \<lparr>final = s, delivered = [],
            closed_on =
              (case first of
                 NotJson \<Rightarrow> Some JSONDecodeError
               | Json data \<Rightarrow>
                   (case data of
                      JObj d \<Rightarrow> (if map_of d ''type'' = None then Some KeyError else None)
                    | _ \<Rightarrow> Some TypeError))\<rparr>"
  using assms
  by (auto simp: websocket_endpoint_def is_join_def
      split: received.splits json.splits option.splits)

theorem first_message_not_join_witness:
  "\<not> is_join (Json ping) \<and>
   websocket_endpoint one_user 2 ''b1''
     [(Json ping, env_ok), (Json (join_as ''bob''), env_ok)] env_ok =
     \<lparr>final = one_user, delivered = [], closed_on = None\<rparr>"
proof -
  have h: "\<not> is_join (Json ping)"
    by (simp add: is_join_def ping_def)
  show ?thesis
    using h first_message_not_join[OF h, of one_user 2 "''b1''" env_ok
        "[(Json (join_as ''bob''), env_ok)]" env_ok]
    by (simp add: ping_def)
qed

subsection \<open>C10: an \<^verbatim>\<open>update_user\<close> event changes the id the teardown uses\<close>




end
